theory Spec2Isabelle
  imports Main "HOL-Library.Word" "HOL-Library.Monad_Syntax"
begin

unbundle bit_operations_syntax

section \<open>ATRescue: the high-voltage fuse programmer of \<^verbatim>\<open>src/ATRescue/main.cpp\<close>\<close>

text \<open>
  The sketch drives the pins of an Arduino and talks to the operator over the UART.
  Everything it does to the outside is kept as a chronological list of events; everything
  it gets from the outside (pin levels, the data bus, characters on the UART) is a field
  of the state that each read consumes from the front. The build modelled is the one of
  the source: \<^verbatim>\<open>MEGA == 0\<close>, \<^verbatim>\<open>ASKMODE == 1\<close>, \<^verbatim>\<open>INTERACTIVE == 1\<close>; the switch
  \<^verbatim>\<open>BURN_EFUSE\<close> is a boolean argument of the functions whose text it changes.
\<close>

subsection \<open>Data model\<close>

type_synonym byte = "8 word"

text \<open>Arduino pin names: digital \<^verbatim>\<open>0..13\<close> and analog \<^verbatim>\<open>A0..A5\<close>.\<close>

datatype pin = D nat | A nat

datatype level = LOW | HIGH

datatype direction = INPUT | OUTPUT

datatype modelist = ATMEGA | TINY2313 | HVSP

datatype fusesel = LFUSE_SEL | HFUSE_SEL | EFUSE_SEL

abbreviation VCC :: pin where "VCC \<equiv> D 12"
abbreviation RDY :: pin where "RDY \<equiv> D 13"
abbreviation OE :: pin where "OE \<equiv> D 11"
abbreviation WR :: pin where "WR \<equiv> D 10"
abbreviation BS1 :: pin where "BS1 \<equiv> A 2"
abbreviation XA0 :: pin where "XA0 \<equiv> D 8"
abbreviation XA1 :: pin where "XA1 \<equiv> A 4"
abbreviation RST :: pin where "RST \<equiv> A 0"
abbreviation XTAL1 :: pin where "XTAL1 \<equiv> A 3"
abbreviation BUTTON :: pin where "BUTTON \<equiv> A 1"

abbreviation (input) SCI :: pin where "SCI \<equiv> BS1"
abbreviation (input) SDO :: pin where "SDO \<equiv> RDY"
abbreviation (input) SII :: pin where "SII \<equiv> XA0"
abbreviation (input) SDI :: pin where "SDI \<equiv> XA1"

datatype event =
    DigitalWrite pin level
  | PinMode pin direction
  | DigitalRead pin level
  | Delay nat
  | DelayMicroseconds nat
  | PORTD_write byte
  | DDRD_write byte
  | PIND_read byte
  | SerialBegin nat
  | SerialEnd
  | SerialWrite string
  | SerialRead byte
  | TXC0_clear
  | TXC0_wait

text \<open>
  The globals \<^verbatim>\<open>mode\<close>, \<^verbatim>\<open>PAGEL\<close> and \<^verbatim>\<open>BS2\<close> of the sketch, the events so far, and the
  inputs still to come: \<open>pin_in\<close> gives the level returned by the next, second next, ...
  call of \<^verbatim>\<open>digitalRead\<close>, \<open>bus_in\<close> the value of the next reads of \<^verbatim>\<open>PIND\<close>, and
  \<open>serial_in\<close> the characters that will arrive at the UART.
\<close>

record world =
  mode :: modelist
  PAGEL :: pin
  BS2 :: pin
  trace :: "event list"
  pin_in :: "nat \<Rightarrow> level"
  bus_in :: "nat \<Rightarrow> byte"
  serial_in :: "byte list"

subsection \<open>The Arduino primitives\<close>

definition emit :: "event \<Rightarrow> world \<Rightarrow> world" where
  "emit e s = s\<lparr>trace := trace s @ [e]\<rparr>"

definition digitalWrite :: "pin \<Rightarrow> level \<Rightarrow> world \<Rightarrow> world" where
  "digitalWrite p l = emit (DigitalWrite p l)"

definition pinMode :: "pin \<Rightarrow> direction \<Rightarrow> world \<Rightarrow> world" where
  "pinMode p d = emit (PinMode p d)"

definition delay :: "nat \<Rightarrow> world \<Rightarrow> world" where
  "delay ms = emit (Delay ms)"

definition delayMicroseconds :: "nat \<Rightarrow> world \<Rightarrow> world" where
  "delayMicroseconds us = emit (DelayMicroseconds us)"

definition set_PORTD :: "byte \<Rightarrow> world \<Rightarrow> world" where
  "set_PORTD b = emit (PORTD_write b)"

definition set_DDRD :: "byte \<Rightarrow> world \<Rightarrow> world" where
  "set_DDRD b = emit (DDRD_write b)"

definition digitalRead :: "pin \<Rightarrow> world \<Rightarrow> level \<times> world" where
  "digitalRead p s =
     (pin_in s 0,
      s\<lparr>trace := trace s @ [DigitalRead p (pin_in s 0)], pin_in := (\<lambda>n. pin_in s (Suc n))\<rparr>)"

definition get_PIND :: "world \<Rightarrow> byte \<times> world" where
  "get_PIND s =
     (bus_in s 0,
      s\<lparr>trace := trace s @ [PIND_read (bus_in s 0)], bus_in := (\<lambda>n. bus_in s (Suc n))\<rparr>)"

text \<open>
  A busy-wait \<^verbatim>\<open>while (digitalRead(p) == l);\<close>: it polls until a read differs from \<open>l\<close>.
  Nothing bounds the number of polls, so the result is \<open>None\<close> when the loop never ends.
\<close>

partial_function (option) wait_while :: "pin \<Rightarrow> level \<Rightarrow> world \<Rightarrow> world option" where
  "wait_while p l s =
     (if fst (digitalRead p s) = l then wait_while p l (snd (digitalRead p s))
      else Some (snd (digitalRead p s)))"

subsection \<open>Strobes and the parallel (HVPP) engine\<close>

definition sclk :: "world \<Rightarrow> world" where
  "sclk s =
     (let s = delay 1 s;
          s = digitalWrite SCI HIGH s;
          s = delay 1 s;
          s = digitalWrite SCI LOW s
      in s)"

definition strobe_xtal :: "world \<Rightarrow> world" where
  "strobe_xtal s =
     (let s = delay 1 s;
          s = digitalWrite XTAL1 HIGH s;
          s = delay 1 s;
          s = digitalWrite XTAL1 LOW s
      in s)"

text \<open>\<^verbatim>\<open>int hex2dec(byte c)\<close>; the results stay far below the 16-bit range of \<^verbatim>\<open>int\<close>.\<close>

definition hex2dec :: "byte \<Rightarrow> int" where
  "hex2dec c =
     (if c \<ge> 0x30 \<and> c \<le> 0x39 then uint c - 0x30
      else if c \<ge> 0x41 \<and> c \<le> 0x46 then uint c - 0x41 + 10
      else uint c)"

definition send_cmd :: "byte \<Rightarrow> world \<Rightarrow> world" where
  "send_cmd command s =
     (let s = digitalWrite XA1 HIGH s;
          s = digitalWrite XA0 LOW s;
          s = digitalWrite BS1 LOW s;
          s = (if mode s \<noteq> TINY2313 then digitalWrite (BS2 s) LOW s else s);
          s = set_PORTD command s;
          s = set_DDRD 0xFF s;
          s = strobe_xtal s;
          s = set_PORTD 0x00 s;
          s = set_DDRD 0x00 s
      in s)"

text \<open>
  \<^verbatim>\<open>fuse_burn\<close> up to and including the pulse on \<^verbatim>\<open>WR\<close> (lines 267 to 315): this part
  always returns. The parameter \<^verbatim>\<open>select\<close> is an \<^verbatim>\<open>int\<close> in the source; every call passes one of
  the three values of \<^verbatim>\<open>enum fusesel\<close>, and the \<^verbatim>\<open>switch\<close> has exactly these three cases.
\<close>

definition fuse_burn_strobe :: "byte \<Rightarrow> fusesel \<Rightarrow> world \<Rightarrow> world" where
  "fuse_burn_strobe fuse select s =
     (let s = send_cmd 0x40 s;
          s = digitalWrite XA1 LOW s;
          s = digitalWrite XA0 HIGH s;
          s = digitalWrite BS1 LOW s;
          s = (if mode s \<noteq> TINY2313 then digitalWrite (BS2 s) LOW s else s);
          s = delay 1 s;
          s = set_PORTD fuse s;
          s = set_DDRD 0xFF s;
          s = strobe_xtal s;
          s = set_PORTD 0x00 s;
          s = set_DDRD 0x00 s;
          s = (case select of
                 HFUSE_SEL \<Rightarrow> digitalWrite (BS2 s) LOW (digitalWrite BS1 HIGH s)
               | LFUSE_SEL \<Rightarrow> digitalWrite (BS2 s) LOW (digitalWrite BS1 LOW s)
               | EFUSE_SEL \<Rightarrow> digitalWrite (BS2 s) HIGH (digitalWrite BS1 LOW s));
          s = delay 1 s;
          s = digitalWrite WR LOW s;
          s = delay 1 s;
          s = digitalWrite WR HIGH s
      in s)"

text \<open>
  The whole of \<^verbatim>\<open>fuse_burn\<close>: the part above, the busy-wait on \<^verbatim>\<open>RDY\<close> (line 318), and
  the reset of the select lines.
\<close>

definition fuse_burn :: "byte \<Rightarrow> fusesel \<Rightarrow> world \<Rightarrow> world option" where
  "fuse_burn fuse select s =
     (case wait_while RDY LOW (fuse_burn_strobe fuse select s) of
        None \<Rightarrow> None
      | Some s \<Rightarrow> Some (digitalWrite (BS2 s) LOW (digitalWrite BS1 LOW s)))"

definition fuse_read :: "fusesel \<Rightarrow> world \<Rightarrow> byte \<times> world" where
  "fuse_read select s =
     (let s = send_cmd 0x04 s;
          s = set_PORTD 0x00 s;
          s = set_DDRD 0x00 s;
          s = (case select of
                 LFUSE_SEL \<Rightarrow> digitalWrite BS1 LOW (digitalWrite (BS2 s) LOW s)
               | HFUSE_SEL \<Rightarrow> digitalWrite BS1 HIGH (digitalWrite (BS2 s) HIGH s)
               | EFUSE_SEL \<Rightarrow> digitalWrite BS1 LOW (digitalWrite (BS2 s) HIGH s));
          s = digitalWrite OE LOW s;
          s = delay 1 s;
          (fuse, s) = get_PIND s;
          s = digitalWrite OE HIGH s
      in (fuse, s))"

subsection \<open>The operator console\<close>

abbreviation CR :: char where "CR \<equiv> CHR 0x0D"
abbreviation NL :: char where "NL \<equiv> CHR 0x0A"

definition Serial_begin :: "nat \<Rightarrow> world \<Rightarrow> world" where
  "Serial_begin baud = emit (SerialBegin baud)"

definition Serial_end :: "world \<Rightarrow> world" where
  "Serial_end = emit SerialEnd"

definition Serial_print :: "string \<Rightarrow> world \<Rightarrow> world" where
  "Serial_print str = emit (SerialWrite str)"

definition Serial_println :: "string \<Rightarrow> world \<Rightarrow> world" where
  "Serial_println str = emit (SerialWrite (str @ [CR, NL]))"

text \<open>
  \<^verbatim>\<open>Print::printNumber\<close> of the Arduino core library, which the sketch reaches through
  \<^verbatim>\<open>Serial.println(fuse, HEX)\<close> and which is no part of the repository. It writes the
  digits of \<open>n\<close> in the given base, most significant first, letters in upper case, and
  at least one digit:
  \<^verbatim>\<open>do { char c = n % base; n /= base; *--str = c < 10 ? c + '0' : c + 'A' - 10; } while (n);\<close>
\<close>

function printNumber :: "nat \<Rightarrow> nat \<Rightarrow> string" where
  "printNumber n base =
     (if base < 2 then printNumber n 10
      else (if n div base \<noteq> 0 then printNumber (n div base) base else []) @
           [if n mod base < 10 then char_of (n mod base + 48) else char_of (n mod base + 65 - 10)])"
  by pat_completeness auto
termination
  by (relation "measure (\<lambda>(n, base). n + (if base < 2 then 1 else 0))") (auto simp: not_less div_greater_zero_iff intro!: div_less_dividend)

definition Serial_println_HEX :: "byte \<Rightarrow> world \<Rightarrow> world" where
  "Serial_println_HEX b = Serial_println (printNumber (unat b) 16)"

text \<open>
  \<^verbatim>\<open>while (Serial.available() == 0); c = Serial.read();\<close> waits for the next character:
  for ever when none is left to arrive.
\<close>

definition Serial_read_wait :: "world \<Rightarrow> (byte \<times> world) option" where
  "Serial_read_wait s =
     (case serial_in s of
        [] \<Rightarrow> None
      | c # cs \<Rightarrow> Some (c, s\<lparr>trace := trace s @ [SerialRead c], serial_in := cs\<rparr>))"

text \<open>The first loop of \<^verbatim>\<open>fuse_ask\<close>: \<^verbatim>\<open>while (incomingByte != 'x') { ... }\<close>.\<close>

function fuse_ask_sync :: "byte \<Rightarrow> world \<Rightarrow> world option" where
  "fuse_ask_sync incomingByte s =
     (if incomingByte \<noteq> 0x78 then
        (case Serial_read_wait s of
           None \<Rightarrow> None
         | Some (c, s') \<Rightarrow> fuse_ask_sync c s')
      else Some s)"
  by pat_completeness auto
termination
  by (relation "measure (\<lambda>(c, s). length (serial_in s))")
     (auto simp: Serial_read_wait_def split: list.splits)

definition fuse_ask :: "world \<Rightarrow> (byte \<times> world) option" where
  "fuse_ask s = do {
     s \<leftarrow> fuse_ask_sync 0 s;
     (serbuffer0, s) \<leftarrow> Serial_read_wait s;
     (serbuffer1, s) \<leftarrow> Serial_read_wait s;
     let fuse = (word_of_int (hex2dec serbuffer1 + hex2dec serbuffer0 * 16) :: byte);
     let s = Serial_println_HEX fuse s;
     Some (fuse, s)
   }"

subsection \<open>The serial (HVSP) engine\<close>

text \<open>
  The loop \<^verbatim>\<open>for (int i=0; i<8; i++)\<close> of \<^verbatim>\<open>HVSP_read\<close>. The bytes are promoted to
  \<^verbatim>\<open>int\<close> before they are shifted; no shift leaves the range of a 16-bit \<^verbatim>\<open>int\<close>.
\<close>

function HVSP_read_bits :: "nat \<Rightarrow> byte \<Rightarrow> byte \<Rightarrow> byte \<Rightarrow> world \<Rightarrow> byte \<times> world" where
  "HVSP_read_bits i data instr response s =
     (if i < 8 then
        let s = (if push_bit i (uint data) AND 0x80 \<noteq> 0 then digitalWrite SDI HIGH s
                 else digitalWrite SDI LOW s);
            s = (if push_bit i (uint instr) AND 0x80 \<noteq> 0 then digitalWrite SII HIGH s
                 else digitalWrite SII LOW s);
            s = sclk s;
            (response, s) =
               (if i < 7 then
                  let (l, s) = digitalRead SDO s
                  in (if l = HIGH then response OR word_of_int (drop_bit i 0x40) else response, s)
                else (response, s))
        in HVSP_read_bits (i + 1) data instr response s
      else (response, s))"
  by pat_completeness auto
termination
  by (relation "measure (\<lambda>(i, data, instr, response, s). 8 - i)") auto

text \<open>The loop \<^verbatim>\<open>for (int i=0; i<2; i++)\<close> that ends \<^verbatim>\<open>HVSP_read\<close> and \<^verbatim>\<open>HVSP_write\<close>.\<close>

function HVSP_last_bits :: "nat \<Rightarrow> world \<Rightarrow> world" where
  "HVSP_last_bits i s =
     (if i < 2 then
        let s = digitalWrite SDI LOW s;
            s = digitalWrite SII LOW s;
            s = sclk s
        in HVSP_last_bits (i + 1) s
      else s)"
  by pat_completeness auto
termination
  by (relation "measure (\<lambda>(i, s). 2 - i)") auto

definition HVSP_read :: "byte \<Rightarrow> byte \<Rightarrow> world \<Rightarrow> byte \<times> world" where
  "HVSP_read data instr s =
     (let response = (0x00 :: byte);
          s = digitalWrite SCI LOW s;
          s = digitalWrite SDI LOW s;
          s = digitalWrite SII LOW s;
          s = sclk s;
          (l, s) = digitalRead SDO s;
          response = (if l = HIGH then response OR 0x80 else response);
          (response, s) = HVSP_read_bits 0 data instr response s;
          s = HVSP_last_bits 0 s
      in (response, s))"

function HVSP_write_bits :: "nat \<Rightarrow> byte \<Rightarrow> byte \<Rightarrow> world \<Rightarrow> world" where
  "HVSP_write_bits i data instr s =
     (if i < 8 then
        let s = (if push_bit i (uint data) AND 0x80 \<noteq> 0 then digitalWrite SDI HIGH s
                 else digitalWrite SDI LOW s);
            s = (if push_bit i (uint instr) AND 0x80 \<noteq> 0 then digitalWrite SII HIGH s
                 else digitalWrite SII LOW s);
            s = sclk s
        in HVSP_write_bits (i + 1) data instr s
      else s)"
  by pat_completeness auto
termination
  by (relation "measure (\<lambda>(i, data, instr, s). 8 - i)") auto

definition HVSP_write :: "byte \<Rightarrow> byte \<Rightarrow> world \<Rightarrow> world" where
  "HVSP_write data instr s =
     (let s = digitalWrite SCI LOW s;
          s = digitalWrite SDI LOW s;
          s = digitalWrite SII LOW s;
          s = sclk s;
          s = HVSP_write_bits 0 data instr s;
          s = HVSP_last_bits 0 s
      in s)"

text \<open>The serial instructions, \<^verbatim>\<open>B01001100\<close> and so on in the source.\<close>

abbreviation (input) HVSP_READ_LFUSE_DATA :: byte where "HVSP_READ_LFUSE_DATA \<equiv> 0x04"
abbreviation (input) HVSP_READ_LFUSE_INSTR1 :: byte where "HVSP_READ_LFUSE_INSTR1 \<equiv> 0x4C"
abbreviation (input) HVSP_READ_LFUSE_INSTR2 :: byte where "HVSP_READ_LFUSE_INSTR2 \<equiv> 0x68"
abbreviation (input) HVSP_READ_LFUSE_INSTR3 :: byte where "HVSP_READ_LFUSE_INSTR3 \<equiv> 0x6C"
abbreviation (input) HVSP_WRITE_LFUSE_DATA :: byte where "HVSP_WRITE_LFUSE_DATA \<equiv> 0x40"
abbreviation (input) HVSP_WRITE_LFUSE_INSTR1 :: byte where "HVSP_WRITE_LFUSE_INSTR1 \<equiv> 0x4C"
abbreviation (input) HVSP_WRITE_LFUSE_INSTR2 :: byte where "HVSP_WRITE_LFUSE_INSTR2 \<equiv> 0x2C"
abbreviation (input) HVSP_WRITE_LFUSE_INSTR3 :: byte where "HVSP_WRITE_LFUSE_INSTR3 \<equiv> 0x64"
abbreviation (input) HVSP_WRITE_LFUSE_INSTR4 :: byte where "HVSP_WRITE_LFUSE_INSTR4 \<equiv> 0x6C"
abbreviation (input) HVSP_READ_HFUSE_DATA :: byte where "HVSP_READ_HFUSE_DATA \<equiv> 0x04"
abbreviation (input) HVSP_READ_HFUSE_INSTR1 :: byte where "HVSP_READ_HFUSE_INSTR1 \<equiv> 0x4C"
abbreviation (input) HVSP_READ_HFUSE_INSTR2 :: byte where "HVSP_READ_HFUSE_INSTR2 \<equiv> 0x7A"
abbreviation (input) HVSP_READ_HFUSE_INSTR3 :: byte where "HVSP_READ_HFUSE_INSTR3 \<equiv> 0x7E"
abbreviation (input) HVSP_WRITE_HFUSE_DATA :: byte where "HVSP_WRITE_HFUSE_DATA \<equiv> 0x40"
abbreviation (input) HVSP_WRITE_HFUSE_INSTR1 :: byte where "HVSP_WRITE_HFUSE_INSTR1 \<equiv> 0x4C"
abbreviation (input) HVSP_WRITE_HFUSE_INSTR2 :: byte where "HVSP_WRITE_HFUSE_INSTR2 \<equiv> 0x2C"
abbreviation (input) HVSP_WRITE_HFUSE_INSTR3 :: byte where "HVSP_WRITE_HFUSE_INSTR3 \<equiv> 0x74"
abbreviation (input) HVSP_WRITE_HFUSE_INSTR4 :: byte where "HVSP_WRITE_HFUSE_INSTR4 \<equiv> 0x7C"
abbreviation (input) HVSP_READ_EFUSE_DATA :: byte where "HVSP_READ_EFUSE_DATA \<equiv> 0x04"
abbreviation (input) HVSP_READ_EFUSE_INSTR1 :: byte where "HVSP_READ_EFUSE_INSTR1 \<equiv> 0x4C"
abbreviation (input) HVSP_READ_EFUSE_INSTR2 :: byte where "HVSP_READ_EFUSE_INSTR2 \<equiv> 0x6A"
abbreviation (input) HVSP_READ_EFUSE_INSTR3 :: byte where "HVSP_READ_EFUSE_INSTR3 \<equiv> 0x6E"
abbreviation (input) HVSP_WRITE_EFUSE_DATA :: byte where "HVSP_WRITE_EFUSE_DATA \<equiv> 0x40"
abbreviation (input) HVSP_WRITE_EFUSE_INSTR1 :: byte where "HVSP_WRITE_EFUSE_INSTR1 \<equiv> 0x4C"
abbreviation (input) HVSP_WRITE_EFUSE_INSTR2 :: byte where "HVSP_WRITE_EFUSE_INSTR2 \<equiv> 0x2C"
abbreviation (input) HVSP_WRITE_EFUSE_INSTR3 :: byte where "HVSP_WRITE_EFUSE_INSTR3 \<equiv> 0x66"
abbreviation (input) HVSP_WRITE_EFUSE_INSTR4 :: byte where "HVSP_WRITE_EFUSE_INSTR4 \<equiv> 0x6E"

subsection \<open>The function \<^verbatim>\<open>setup\<close> of the sketch\<close>

text \<open>The globals as their initialisers leave them, before \<^verbatim>\<open>setup\<close> runs.\<close>

definition power_on :: "(nat \<Rightarrow> level) \<Rightarrow> (nat \<Rightarrow> byte) \<Rightarrow> byte list \<Rightarrow> world" where
  "power_on pins bus chars =
     \<lparr>mode = ATMEGA, PAGEL = A 5, BS2 = D 9, trace = [],
      pin_in = pins, bus_in = bus, serial_in = chars\<rparr>"

text \<open>The mode question, \<^verbatim>\<open>while (response == 0) { ... }\<close>.\<close>

function ask_mode :: "byte \<Rightarrow> world \<Rightarrow> world option" where
  "ask_mode response s =
     (if response = 0 then
        (case Serial_read_wait s of
           None \<Rightarrow> None
         | Some (r, s') \<Rightarrow>
             if r = 0x31 then ask_mode r (s'\<lparr>mode := ATMEGA\<rparr>)
             else if r = 0x32 then ask_mode r (s'\<lparr>mode := TINY2313\<rparr>)
             else if r = 0x33 then ask_mode r (s'\<lparr>mode := HVSP\<rparr>)
             else ask_mode 0 (Serial_println ''Invalid response.  Try again.'' s'))
      else Some s)"
  by pat_completeness auto
termination
  by (relation "measure (\<lambda>(r, s). length (serial_in s))")
     (auto simp: Serial_read_wait_def Serial_println_def emit_def split: list.splits)

definition sketch_setup :: "world \<Rightarrow> world option" where
  "sketch_setup s = do {
     let s = set_PORTD 0x00 s;
     let s = set_DDRD 0x00 s;
     let s = pinMode VCC OUTPUT s;
     let s = pinMode RDY INPUT s;
     let s = pinMode OE OUTPUT s;
     let s = pinMode WR OUTPUT s;
     let s = pinMode BS1 OUTPUT s;
     let s = pinMode XA0 OUTPUT s;
     let s = pinMode XA1 OUTPUT s;
     let s = pinMode (PAGEL s) OUTPUT s;
     let s = pinMode RST OUTPUT s;
     let s = pinMode (BS2 s) OUTPUT s;
     let s = pinMode XTAL1 OUTPUT s;
     let s = pinMode BUTTON INPUT s;
     let s = digitalWrite BUTTON HIGH s;
     let s = digitalWrite RST HIGH s;
     let s = digitalWrite VCC LOW s;
     let s = Serial_begin 9600 s;
     let s = Serial_println ''Select mode:'' s;
     let s = Serial_println ''1: ATmega (28-pin)'' s;
     let s = Serial_println ''2: ATtiny2313'' s;
     let s = Serial_println ''3: ATtiny (8-pin) / HVSP'' s;
     s \<leftarrow> ask_mode 0 s;
     let s = Serial_print ''Selected mode: '' s;
     let s = (case mode s of
                ATMEGA \<Rightarrow> Serial_println ''ATMEGA'' s
              | TINY2313 \<Rightarrow> (Serial_println ''ATtiny2313'' s)\<lparr>PAGEL := BS1, BS2 := XA1\<rparr>
              | HVSP \<Rightarrow> Serial_println ''ATtiny/HVSP'' s);
     Some s
   }"

subsection \<open>\<^verbatim>\<open>loop\<close>, phase by phase\<close>

text \<open>Lines 626 to 631: the wait for the button, with its debounce.\<close>

partial_function (option) wait_button :: "world \<Rightarrow> world option" where
  "wait_button s =
     Option.bind (wait_while BUTTON HIGH s)
       (\<lambda>s. if fst (digitalRead BUTTON (delay 100 s)) = LOW
             then Some (snd (digitalRead BUTTON (delay 100 s)))
             else wait_button (snd (digitalRead BUTTON (delay 100 s))))"

text \<open>Lines 633 to 645.\<close>

definition init_pins :: "world \<Rightarrow> world" where
  "init_pins s =
     (let s = set_PORTD 0x00 s;
          s = set_DDRD 0x00 s;
          s = digitalWrite (PAGEL s) LOW s;
          s = digitalWrite XA1 LOW s;
          s = digitalWrite XA0 LOW s;
          s = digitalWrite BS1 LOW s;
          s = digitalWrite (BS2 s) LOW s;
          s = digitalWrite WR LOW s;
          s = digitalWrite OE LOW s
      in s)"

text \<open>Lines 647 to 668: entering programming mode.\<close>

definition enter_programming_mode :: "world \<Rightarrow> world" where
  "enter_programming_mode s =
     (let s = (if mode s = HVSP then
                 let s = digitalWrite SDI LOW s;
                     s = digitalWrite SII LOW s;
                     s = pinMode SDO OUTPUT s;
                     s = digitalWrite SDO LOW s
                 in s
               else s);
          s = digitalWrite VCC HIGH s;
          s = delayMicroseconds 80 s;
          s = digitalWrite RST LOW s;
          s = (if mode s = HVSP then
                 let s = delayMicroseconds 1 s;
                     s = pinMode SDO INPUT s
                 in s
               else s);
          s = delayMicroseconds 10 s;
          s = digitalWrite OE HIGH s;
          s = digitalWrite WR HIGH s;
          s = delay 1 s
      in s)"

text \<open>
  The three fuses are read in the same way at lines 674 to 697 and again, after the burn,
  at lines 767 to 778 and 795 to 800. Without \<^verbatim>\<open>BURN_EFUSE\<close> the variable \<^verbatim>\<open>read_efuse\<close>
  does not exist; its place in the result is then 0 and is never looked at.
\<close>

definition HVSP_read_fuses :: "bool \<Rightarrow> world \<Rightarrow> (byte \<times> byte \<times> byte) \<times> world" where
  "HVSP_read_fuses burn_efuse s =
     (let (r, s) = HVSP_read HVSP_READ_LFUSE_DATA HVSP_READ_LFUSE_INSTR1 s;
          (r, s) = HVSP_read 0x00 HVSP_READ_LFUSE_INSTR2 s;
          (read_lfuse, s) = HVSP_read 0x00 HVSP_READ_LFUSE_INSTR3 s;
          (r, s) = HVSP_read HVSP_READ_HFUSE_DATA HVSP_READ_HFUSE_INSTR1 s;
          (r, s) = HVSP_read 0x00 HVSP_READ_HFUSE_INSTR2 s;
          (read_hfuse, s) = HVSP_read 0x00 HVSP_READ_HFUSE_INSTR3 s;
          (read_efuse, s) =
             (if burn_efuse then
                let (r, s) = HVSP_read HVSP_READ_EFUSE_DATA HVSP_READ_EFUSE_INSTR1 s;
                    (r, s) = HVSP_read 0x00 HVSP_READ_EFUSE_INSTR2 s
                in HVSP_read 0x00 HVSP_READ_EFUSE_INSTR3 s
              else (0, s))
      in ((read_lfuse, read_hfuse, read_efuse), s))"

definition HVPP_read_fuses :: "bool \<Rightarrow> world \<Rightarrow> (byte \<times> byte \<times> byte) \<times> world" where
  "HVPP_read_fuses burn_efuse s =
     (let (read_lfuse, s) = fuse_read LFUSE_SEL s;
          (read_hfuse, s) = fuse_read HFUSE_SEL s;
          (read_efuse, s) = (if burn_efuse then fuse_read EFUSE_SEL s else (0, s))
      in ((read_lfuse, read_hfuse, read_efuse), s))"

text \<open>Lines 674 to 697.\<close>

definition read_fuses :: "bool \<Rightarrow> world \<Rightarrow> (byte \<times> byte \<times> byte) \<times> world" where
  "read_fuses burn_efuse s =
     (if mode s = HVSP then HVSP_read_fuses burn_efuse s else HVPP_read_fuses burn_efuse s)"

text \<open>Lines 700 to 711.\<close>

definition report_existing :: "bool \<Rightarrow> byte \<Rightarrow> byte \<Rightarrow> byte \<Rightarrow> world \<Rightarrow> world" where
  "report_existing burn_efuse read_lfuse read_hfuse read_efuse s =
     (let s = Serial_begin 9600 s;
          s = Serial_print [NL] s;
          s = Serial_println ''Existing fuse values:'' s;
          s = Serial_print ''LFUSE: '' s;
          s = Serial_println_HEX read_lfuse s;
          s = Serial_print ''HFUSE: '' s;
          s = Serial_println_HEX read_hfuse s;
          s = (if burn_efuse then
                 let s = Serial_print ''EFUSE: '' s;
                     s = Serial_println_HEX read_efuse s
                 in s
               else s);
          s = Serial_print [NL] s
      in s)"

text \<open>Lines 716 to 724 (the interactive build).\<close>

definition ask_fuses :: "bool \<Rightarrow> world \<Rightarrow> ((byte \<times> byte \<times> byte) \<times> world) option" where
  "ask_fuses burn_efuse s = do {
     let s = Serial_print ''Enter desired LFUSE hex value (ie. 0x62): '' s;
     (lfuse, s) \<leftarrow> fuse_ask s;
     let s = Serial_print ''Enter desired HFUSE hex value (ie. 0xDF): '' s;
     (hfuse, s) \<leftarrow> fuse_ask s;
     (efuse, s) \<leftarrow>
        (if burn_efuse then
           fuse_ask (Serial_print ''Enter desired EFUSE hex value (ie. 0xF9): '' s)
         else Some (0, s));
     Some ((lfuse, hfuse, efuse), s)
   }"

text \<open>
  Lines 737 to 741. The wait on the flag \<^verbatim>\<open>TXC0\<close> of the host's own UART, which the
  hardware sets once the line just printed has left, is kept as one event.
\<close>

definition announce_burn :: "world \<Rightarrow> world" where
  "announce_burn s =
     (let s = emit TXC0_clear s;
          s = Serial_println ''Burning fuses...'' s;
          s = emit TXC0_wait s;
          s = Serial_end s
      in s)"

text \<open>
  The \<^verbatim>\<open>if (mode == HVSP) ... else ...\<close> of lines 745 to 804 first burns and then reads
  back; nothing in between assigns \<^verbatim>\<open>mode\<close>, and the two halves are kept apart here.
  Lines 746 to 764 and 783 to 792: the burn. In the serial mode each fuse is written by
  four frames and a busy-wait on \<^verbatim>\<open>SDO\<close>, at lines 746 to 750, 752 to 756 and 759 to 763.
\<close>

definition HVSP_burn_lfuse :: "byte \<Rightarrow> world \<Rightarrow> world option" where
  "HVSP_burn_lfuse lfuse s =
     (let s = HVSP_write HVSP_WRITE_LFUSE_DATA HVSP_WRITE_LFUSE_INSTR1 s;
          s = HVSP_write lfuse HVSP_WRITE_LFUSE_INSTR2 s;
          s = HVSP_write 0x00 HVSP_WRITE_LFUSE_INSTR3 s;
          s = HVSP_write 0x00 HVSP_WRITE_LFUSE_INSTR4 s
      in wait_while SDO LOW s)"

definition HVSP_burn_hfuse :: "byte \<Rightarrow> world \<Rightarrow> world option" where
  "HVSP_burn_hfuse hfuse s =
     (let s = HVSP_write HVSP_WRITE_HFUSE_DATA HVSP_WRITE_HFUSE_INSTR1 s;
          s = HVSP_write hfuse HVSP_WRITE_HFUSE_INSTR2 s;
          s = HVSP_write 0x00 HVSP_WRITE_HFUSE_INSTR3 s;
          s = HVSP_write 0x00 HVSP_WRITE_HFUSE_INSTR4 s
      in wait_while SDO LOW s)"

definition HVSP_burn_efuse :: "byte \<Rightarrow> world \<Rightarrow> world option" where
  "HVSP_burn_efuse efuse s =
     (let s = HVSP_write HVSP_WRITE_EFUSE_DATA HVSP_WRITE_EFUSE_INSTR1 s;
          s = HVSP_write efuse HVSP_WRITE_EFUSE_INSTR2 s;
          s = HVSP_write 0x00 HVSP_WRITE_EFUSE_INSTR3 s;
          s = HVSP_write 0x00 HVSP_WRITE_EFUSE_INSTR4 s
      in wait_while SDO LOW s)"

definition HVSP_burn_fuses :: "bool \<Rightarrow> byte \<Rightarrow> byte \<Rightarrow> byte \<Rightarrow> world \<Rightarrow> world option" where
  "HVSP_burn_fuses burn_efuse lfuse hfuse efuse s = do {
     s \<leftarrow> HVSP_burn_lfuse lfuse s;
     s \<leftarrow> HVSP_burn_hfuse hfuse s;
     if burn_efuse then HVSP_burn_efuse efuse s else Some s
   }"

definition HVPP_burn_fuses :: "bool \<Rightarrow> byte \<Rightarrow> byte \<Rightarrow> byte \<Rightarrow> world \<Rightarrow> world option" where
  "HVPP_burn_fuses burn_efuse lfuse hfuse efuse s = do {
     s \<leftarrow> fuse_burn hfuse HFUSE_SEL s;
     s \<leftarrow> fuse_burn lfuse LFUSE_SEL s;
     if burn_efuse then fuse_burn efuse EFUSE_SEL s else Some s
   }"

definition burn_fuses :: "bool \<Rightarrow> byte \<Rightarrow> byte \<Rightarrow> byte \<Rightarrow> world \<Rightarrow> world option" where
  "burn_fuses burn_efuse lfuse hfuse efuse s =
     (if mode s = HVSP then HVSP_burn_fuses burn_efuse lfuse hfuse efuse s
      else HVPP_burn_fuses burn_efuse lfuse hfuse efuse s)"

text \<open>Lines 766 to 778 and 794 to 803: the read back.\<close>

definition verify_fuses :: "bool \<Rightarrow> world \<Rightarrow> (byte \<times> byte \<times> byte) \<times> world" where
  "verify_fuses burn_efuse s =
     (if mode s = HVSP then HVSP_read_fuses burn_efuse s
      else (let (r, s) = HVPP_read_fuses burn_efuse s in (r, digitalWrite OE HIGH s)))"

text \<open>Lines 806 to 819.\<close>

definition report_verify :: "bool \<Rightarrow> byte \<Rightarrow> byte \<Rightarrow> byte \<Rightarrow> world \<Rightarrow> world" where
  "report_verify burn_efuse read_lfuse read_hfuse read_efuse s =
     (let s = Serial_begin 9600 s;
          s = Serial_print [NL] s;
          s = Serial_print ''Read LFUSE: '' s;
          s = Serial_println_HEX read_lfuse s;
          s = Serial_print ''Read HFUSE: '' s;
          s = Serial_println_HEX read_hfuse s;
          s = (if burn_efuse then
                 let s = Serial_print ''Read EFUSE: '' s;
                     s = Serial_println_HEX read_efuse s
                 in s
               else s);
          s = Serial_println ''Burn complete.'' s;
          s = Serial_print [NL] s;
          s = Serial_println ''It is now safe to remove the target AVR.'' s;
          s = Serial_print [NL] s
      in s)"

text \<open>Lines 822 to 837.\<close>

definition exit_programming_mode :: "world \<Rightarrow> world" where
  "exit_programming_mode s =
     (let s = set_PORTD 0x00 s;
          s = set_DDRD 0x00 s;
          s = digitalWrite RST HIGH s;
          s = delay 1 s;
          s = digitalWrite OE LOW s;
          s = digitalWrite WR LOW s;
          s = digitalWrite (PAGEL s) LOW s;
          s = digitalWrite XA1 LOW s;
          s = digitalWrite XA0 LOW s;
          s = digitalWrite BS1 LOW s;
          s = digitalWrite (BS2 s) LOW s;
          s = digitalWrite VCC LOW s
      in s)"

text \<open>One pass of \<^verbatim>\<open>loop\<close>.\<close>

definition loop :: "bool \<Rightarrow> world \<Rightarrow> world option" where
  "loop burn_efuse s = do {
     let s = Serial_println ''Insert target AVR and press button.'' s;
     let s = Serial_end s;
     let s = set_DDRD 0x03 s;
     let s = set_PORTD 0x00 s;
     s \<leftarrow> wait_button s;
     let s = init_pins s;
     let s = enter_programming_mode s;
     let ((read_lfuse, read_hfuse, read_efuse), s) = read_fuses burn_efuse s;
     let s = report_existing burn_efuse read_lfuse read_hfuse read_efuse s;
     ((lfuse, hfuse, efuse), s) \<leftarrow> ask_fuses burn_efuse s;
     let s = announce_burn s;
     s \<leftarrow> burn_fuses burn_efuse lfuse hfuse efuse s;
     let ((read_lfuse, read_hfuse, read_efuse), s) = verify_fuses burn_efuse s;
     let s = report_verify burn_efuse read_lfuse read_hfuse read_efuse s;
     let s = exit_programming_mode s;
     Some s
   }"

section \<open>Observations on the events\<close>

text \<open>What a call added to the events: those of \<open>s'\<close> after those of \<open>s\<close>.\<close>

definition emitted :: "world \<Rightarrow> world \<Rightarrow> event list" where
  "emitted s s' = drop (length (trace s)) (trace s')"

text \<open>The level a pin was last driven to in a list of events, if it was driven at all.\<close>

fun driven :: "pin \<Rightarrow> event list \<Rightarrow> level option" where
  "driven p [] = None"
| "driven p (e # es) =
     (case driven p es of
        Some l \<Rightarrow> Some l
      | None \<Rightarrow> (case e of DigitalWrite q l \<Rightarrow> if q = p then Some l else None | _ \<Rightarrow> None))"

text \<open>The levels written to a pin, in order.\<close>

fun writes_to :: "pin \<Rightarrow> event list \<Rightarrow> level list" where
  "writes_to p [] = []"
| "writes_to p (e # es) =
     (case e of DigitalWrite q l \<Rightarrow> if q = p then l # writes_to p es else writes_to p es
      | _ \<Rightarrow> writes_to p es)"

text \<open>The events before the first occurrence of a given one.\<close>

definition before :: "event \<Rightarrow> event list \<Rightarrow> event list" where
  "before e evs = takeWhile (\<lambda>x. x \<noteq> e) evs"

text \<open>
  The pin roles as \<^verbatim>\<open>setup\<close> leaves them: \<^verbatim>\<open>PAGEL\<close> and \<^verbatim>\<open>BS2\<close> are the pins \<^verbatim>\<open>A5\<close> and
  \<^verbatim>\<open>9\<close>, except for the ATtiny2313, where they are \<^verbatim>\<open>BS1\<close> and \<^verbatim>\<open>XA1\<close>.
\<close>

definition pins_ok :: "world \<Rightarrow> bool" where
  "pins_ok s =
     (if mode s = TINY2313 then PAGEL s = BS1 \<and> BS2 s = XA1 else PAGEL s = A 5 \<and> BS2 s = D 9)"

text \<open>
  The select lines \<^verbatim>\<open>(BS1, BS2)\<close> as \<^verbatim>\<open>fuse_read\<close> has driven them when it pulls \<^verbatim>\<open>OE\<close>
  low, and as \<^verbatim>\<open>fuse_burn\<close> has driven them when it pulls \<^verbatim>\<open>WR\<close> low.
\<close>

definition read_select :: "fusesel \<Rightarrow> world \<Rightarrow> level option \<times> level option" where
  "read_select sel s =
     (let evs = before (DigitalWrite OE LOW) (emitted s (snd (fuse_read sel s)))
      in (driven BS1 evs, driven (BS2 s) evs))"

definition burn_select :: "byte \<Rightarrow> fusesel \<Rightarrow> world \<Rightarrow> level option \<times> level option" where
  "burn_select fuse sel s =
     (let evs = before (DigitalWrite WR LOW) (emitted s (fuse_burn_strobe fuse sel s))
      in (driven BS1 evs, driven (BS2 s) evs))"

text \<open>The first \<open>n\<close> polls of a busy-wait on pin \<open>p\<close>, reading the levels \<open>f 0, f 1, ...\<close>.\<close>

definition polls :: "pin \<Rightarrow> (nat \<Rightarrow> level) \<Rightarrow> nat \<Rightarrow> event list" where
  "polls p f n = map (\<lambda>j. DigitalRead p (f j)) [0..<n]"

text \<open>
  The state after a busy-wait on pin \<open>p\<close> that polled \<open>n\<close> times reading \<open>LOW\<close> and then once
  reading \<open>HIGH\<close>: the polls are in the events, and \<open>n + 1\<close> levels of the input are used up.
\<close>

definition after_polls :: "pin \<Rightarrow> nat \<Rightarrow> world \<Rightarrow> world" where
  "after_polls p n s =
     s\<lparr>trace := trace s @ replicate n (DigitalRead p LOW) @ [DigitalRead p HIGH],
       pin_in := (\<lambda>k. pin_in s (k + Suc n))\<rparr>"

text \<open>
  The state after one round of the wait for the button: \<open>n\<close> polls that read \<open>HIGH\<close> (not
  pressed), one that reads \<open>LOW\<close> (pressed), the 100 ms, and the confirming read.
\<close>

definition after_press :: "nat \<Rightarrow> world \<Rightarrow> world" where
  "after_press n s =
     s\<lparr>trace := trace s @ replicate n (DigitalRead BUTTON HIGH) @
                 [DigitalRead BUTTON LOW, Delay 100, DigitalRead BUTTON (pin_in s (Suc n))],
       pin_in := (\<lambda>k. pin_in s (k + Suc (Suc n)))\<rparr>"

text \<open>What the sketch has printed: the text of the writes to the UART, in order.\<close>

fun serial_text :: "event list \<Rightarrow> string" where
  "serial_text [] = []"
| "serial_text (SerialWrite str # es) = str @ serial_text es"
| "serial_text (e # es) = serial_text es"

text \<open>A text as the lines a terminal shows: cut at each line feed, carriage returns dropped.\<close>

fun lines_of :: "string \<Rightarrow> string list" where
  "lines_of [] = [[]]"
| "lines_of (c # cs) =
     (if c = NL then [] # lines_of cs
      else if c = CR then lines_of cs
      else (case lines_of cs of [] \<Rightarrow> [[c]] | l # ls \<Rightarrow> (c # l) # ls))"

text \<open>
  A byte in upper-case hexadecimal digits without a leading zero: one digit below 16, two
  from 16 on.
\<close>

definition hex_digit :: "nat \<Rightarrow> char" where
  "hex_digit n = ''0123456789ABCDEF'' ! n"

definition HEX :: "byte \<Rightarrow> string" where
  "HEX v =
     (if unat v < 16 then [hex_digit (unat v)]
      else [hex_digit (unat v div 16), hex_digit (unat v mod 16)])"

text \<open>The state \<^verbatim>\<open>fuse_ask\<close> leaves: the characters read, the echo, and the input that remains.\<close>

definition after_fuse_ask :: "byte list \<Rightarrow> byte \<Rightarrow> byte list \<Rightarrow> world \<Rightarrow> world" where
  "after_fuse_ask taken fuse rest s =
     s\<lparr>trace := trace s @ map SerialRead taken @
                 [SerialWrite (printNumber (unat fuse) 16 @ [CR, NL])],
       serial_in := rest\<rparr>"

text \<open>The events of the straight-line functions, written out.\<close>

definition send_cmd_events :: "modelist \<Rightarrow> pin \<Rightarrow> byte \<Rightarrow> event list" where
  "send_cmd_events m bs2 c =
     [DigitalWrite XA1 HIGH, DigitalWrite XA0 LOW, DigitalWrite BS1 LOW] @
     (if m \<noteq> TINY2313 then [DigitalWrite bs2 LOW] else []) @
     [PORTD_write c, DDRD_write 0xFF, Delay 1, DigitalWrite XTAL1 HIGH, Delay 1,
      DigitalWrite XTAL1 LOW, PORTD_write 0, DDRD_write 0]"

definition fuse_burn_strobe_events :: "modelist \<Rightarrow> pin \<Rightarrow> byte \<Rightarrow> fusesel \<Rightarrow> event list" where
  "fuse_burn_strobe_events m bs2 f sel =
     send_cmd_events m bs2 0x40 @
     [DigitalWrite XA1 LOW, DigitalWrite XA0 HIGH, DigitalWrite BS1 LOW] @
     (if m \<noteq> TINY2313 then [DigitalWrite bs2 LOW] else []) @
     [Delay 1, PORTD_write f, DDRD_write 0xFF, Delay 1, DigitalWrite XTAL1 HIGH, Delay 1,
      DigitalWrite XTAL1 LOW, PORTD_write 0, DDRD_write 0,
      DigitalWrite BS1 (case sel of HFUSE_SEL \<Rightarrow> HIGH | _ \<Rightarrow> LOW),
      DigitalWrite bs2 (case sel of EFUSE_SEL \<Rightarrow> HIGH | _ \<Rightarrow> LOW),
      Delay 1, DigitalWrite WR LOW, Delay 1, DigitalWrite WR HIGH]"

definition fuse_read_events :: "modelist \<Rightarrow> pin \<Rightarrow> fusesel \<Rightarrow> byte \<Rightarrow> event list" where
  "fuse_read_events m bs2 sel v =
     send_cmd_events m bs2 0x04 @
     [PORTD_write 0, DDRD_write 0,
      DigitalWrite bs2 (case sel of LFUSE_SEL \<Rightarrow> LOW | _ \<Rightarrow> HIGH),
      DigitalWrite BS1 (case sel of HFUSE_SEL \<Rightarrow> HIGH | _ \<Rightarrow> LOW),
      DigitalWrite OE LOW, Delay 1, PIND_read v, DigitalWrite OE HIGH]"

definition lvl :: "bool \<Rightarrow> level" where
  "lvl b = (if b then HIGH else LOW)"

definition pulse :: "event list" where
  "pulse = [Delay 1, DigitalWrite SCI HIGH, Delay 1, DigitalWrite SCI LOW]"

definition bit_events :: "byte \<Rightarrow> byte \<Rightarrow> nat \<Rightarrow> event list" where
  "bit_events d i k =
     [DigitalWrite SDI (lvl (bit d (7 - k))), DigitalWrite SII (lvl (bit i (7 - k)))] @ pulse"

definition zero_events :: "event list" where
  "zero_events = [DigitalWrite SDI LOW, DigitalWrite SII LOW] @ pulse"

definition HVSP_write_events :: "byte \<Rightarrow> byte \<Rightarrow> event list" where
  "HVSP_write_events d i =
     DigitalWrite SCI LOW # zero_events @ concat (map (bit_events d i) [0..<8]) @
     zero_events @ zero_events"

definition HVSP_read_events :: "byte \<Rightarrow> byte \<Rightarrow> (nat \<Rightarrow> level) \<Rightarrow> event list" where
  "HVSP_read_events d i f =
     DigitalWrite SCI LOW # zero_events @ [DigitalRead SDO (f 0)] @
     concat (map (\<lambda>k. bit_events d i k @ [DigitalRead SDO (f (Suc k))]) [0..<7]) @
     bit_events d i 7 @ zero_events @ zero_events"

text \<open>
  What the target is clocked: the levels of \<^verbatim>\<open>(SDI, SII)\<close> at each rising edge of \<^verbatim>\<open>SCI\<close>,
  from the levels \<open>sci\<close>, \<open>sdi\<close> and \<open>sii\<close> the three lines have at the start.
\<close>

fun clocked :: "level \<Rightarrow> level \<Rightarrow> level \<Rightarrow> event list \<Rightarrow> (level \<times> level) list" where
  "clocked sci sdi sii [] = []"
| "clocked sci sdi sii (DigitalWrite p l # es) =
     (if p = SCI then (if sci = LOW \<and> l = HIGH then [(sdi, sii)] else []) @ clocked l sdi sii es
      else if p = SDI then clocked sci l sii es
      else if p = SII then clocked sci sdi l es
      else clocked sci sdi sii es)"
| "clocked sci sdi sii (e # es) = clocked sci sdi sii es"

text \<open>
  The serial frame of the specification: a zero bit, the eight bits of the data byte
  beside those of the instruction byte, most significant first, and two zero bits.
\<close>

definition SerialFrame :: "byte \<Rightarrow> byte \<Rightarrow> (level \<times> level) list" where
  "SerialFrame d i =
     (LOW, LOW) # map (\<lambda>k. (lvl (bit d (7 - k)), lvl (bit i (7 - k)))) [0..<8] @
     [(LOW, LOW), (LOW, LOW)]"

text \<open>
  The samples of \<^verbatim>\<open>SDO\<close>: for each read, the number of rising edges of \<^verbatim>\<open>SCI\<close> before
  it, the event just before it, and the level read. \<open>n\<close> counts the edges so far, \<open>sci\<close> is
  the level of the clock and \<open>prev\<close> the event before the list.
\<close>

fun sdo_samples ::
  "nat \<Rightarrow> level \<Rightarrow> event option \<Rightarrow> event list \<Rightarrow> (nat \<times> event option \<times> level) list" where
  "sdo_samples n sci prev [] = []"
| "sdo_samples n sci prev (DigitalWrite p l # es) =
     (if p = SCI then sdo_samples (if sci = LOW \<and> l = HIGH then Suc n else n) l
                        (Some (DigitalWrite p l)) es
      else sdo_samples n sci (Some (DigitalWrite p l)) es)"
| "sdo_samples n sci prev (DigitalRead p l # es) =
     (if p = SDO then (n, prev, l) # sdo_samples n sci (Some (DigitalRead p l)) es
      else sdo_samples n sci (Some (DigitalRead p l)) es)"
| "sdo_samples n sci prev (e # es) = sdo_samples n sci (Some e) es"

text \<open>
  For the invariant of the loop of \<^verbatim>\<open>HVSP_read\<close>: bit \<open>n\<close> of the response is set by one of
  the passes \<open>i, ..., 6\<close>, whose samples are \<open>f 0, f 1, ...\<close>.
\<close>

definition sampled_bits :: "nat \<Rightarrow> (nat \<Rightarrow> level) \<Rightarrow> nat \<Rightarrow> bool" where
  "sampled_bits i f n = (\<exists>k. i \<le> k \<and> k < 7 \<and> n = 6 - k \<and> f (k - i) = HIGH)"

text \<open>
  What the parallel engine burns: at each write of \<^verbatim>\<open>WR\<close> low, the levels of the select lines
  \<^verbatim>\<open>BS1\<close> and \<^verbatim>\<open>BS2\<close> (the pin \<open>bs2\<close>) and the byte that the last rising edge of \<^verbatim>\<open>XTAL1\<close>
  latched from the data bus. \<open>b1\<close>, \<open>b2\<close>, \<open>port\<close> and \<open>dat\<close> are the two levels, the value of
  \<^verbatim>\<open>PORTD\<close> and the latched byte at the start.
\<close>

fun burn_strobes ::
  "pin \<Rightarrow> level \<Rightarrow> level \<Rightarrow> byte \<Rightarrow> byte \<Rightarrow> event list \<Rightarrow> (level \<times> level \<times> byte) list" where
  "burn_strobes bs2 b1 b2 port dat [] = []"
| "burn_strobes bs2 b1 b2 port dat (DigitalWrite p l # es) =
     (if p = WR \<and> l = LOW then [(b1, b2, dat)] else []) @
     burn_strobes bs2 (if p = BS1 then l else b1) (if p = bs2 then l else b2) port
       (if p = XTAL1 \<and> l = HIGH then port else dat) es"
| "burn_strobes bs2 b1 b2 port dat (PORTD_write v # es) = burn_strobes bs2 b1 b2 v dat es"
| "burn_strobes bs2 b1 b2 port dat (e # es) = burn_strobes bs2 b1 b2 port dat es"

text \<open>The events of a whole \<^verbatim>\<open>fuse_burn\<close> whose busy-wait polled \<open>n + 1\<close> times.\<close>

definition fuse_burn_events :: "modelist \<Rightarrow> pin \<Rightarrow> byte \<Rightarrow> fusesel \<Rightarrow> nat \<Rightarrow> event list" where
  "fuse_burn_events m bs2 f sel n =
     fuse_burn_strobe_events m bs2 f sel @ replicate n (DigitalRead RDY LOW) @
     [DigitalRead RDY HIGH, DigitalWrite BS1 LOW, DigitalWrite bs2 LOW]"

section \<open>Proofs\<close>

declare printNumber.simps [simp del] fuse_ask_sync.simps [simp del]
  HVSP_read_bits.simps [simp del] HVSP_last_bits.simps [simp del]
  HVSP_write_bits.simps [simp del] ask_mode.simps [simp del]

lemmas prim_defs =
  Let_def digitalWrite_def pinMode_def delay_def delayMicroseconds_def set_PORTD_def
  set_DDRD_def Serial_begin_def Serial_end_def Serial_print_def Serial_println_def
  Serial_println_HEX_def

lemma emit_fields [simp]:
  "trace (emit e s) = trace s @ [e]" "mode (emit e s) = mode s" "PAGEL (emit e s) = PAGEL s"
  "BS2 (emit e s) = BS2 s" "pin_in (emit e s) = pin_in s" "bus_in (emit e s) = bus_in s"
  "serial_in (emit e s) = serial_in s"
  by (simp_all add: emit_def)

lemma emitted_append [simp]: "trace s' = trace s @ evs \<Longrightarrow> emitted s s' = evs"
  by (simp add: emitted_def)

lemma emitted_self [simp]: "emitted s s = []"
  by (simp add: emitted_def)

lemma strobe_xtal_trace:
  "trace (strobe_xtal s) =
     trace s @ [Delay 1, DigitalWrite XTAL1 HIGH, Delay 1, DigitalWrite XTAL1 LOW]"
  by (simp add: strobe_xtal_def prim_defs)

lemma strobe_xtal_fields [simp]:
  "mode (strobe_xtal s) = mode s" "PAGEL (strobe_xtal s) = PAGEL s"
  "BS2 (strobe_xtal s) = BS2 s" "pin_in (strobe_xtal s) = pin_in s"
  "bus_in (strobe_xtal s) = bus_in s" "serial_in (strobe_xtal s) = serial_in s"
  by (simp_all add: strobe_xtal_def prim_defs)


lemma send_cmd_trace: "trace (send_cmd c s) = trace s @ send_cmd_events (mode s) (BS2 s) c"
  by (simp add: send_cmd_def send_cmd_events_def prim_defs strobe_xtal_trace)

lemma send_cmd_fields [simp]:
  "mode (send_cmd c s) = mode s" "PAGEL (send_cmd c s) = PAGEL s"
  "BS2 (send_cmd c s) = BS2 s" "pin_in (send_cmd c s) = pin_in s"
  "bus_in (send_cmd c s) = bus_in s" "serial_in (send_cmd c s) = serial_in s"
  by (simp_all add: send_cmd_def prim_defs)


lemma fuse_burn_strobe_trace:
  "trace (fuse_burn_strobe f sel s) = trace s @ fuse_burn_strobe_events (mode s) (BS2 s) f sel"
  by (simp add: fuse_burn_strobe_def fuse_burn_strobe_events_def prim_defs strobe_xtal_trace
      send_cmd_trace split: fusesel.split)

lemma fuse_burn_strobe_fields [simp]:
  "mode (fuse_burn_strobe f sel s) = mode s" "PAGEL (fuse_burn_strobe f sel s) = PAGEL s"
  "BS2 (fuse_burn_strobe f sel s) = BS2 s" "pin_in (fuse_burn_strobe f sel s) = pin_in s"
  "bus_in (fuse_burn_strobe f sel s) = bus_in s"
  "serial_in (fuse_burn_strobe f sel s) = serial_in s"
  by (simp_all add: fuse_burn_strobe_def prim_defs split: fusesel.split)


lemma fuse_read_trace:
  "trace (snd (fuse_read sel s)) = trace s @ fuse_read_events (mode s) (BS2 s) sel (bus_in s 0)"
  by (simp add: fuse_read_def fuse_read_events_def prim_defs get_PIND_def send_cmd_trace
      split: fusesel.split)

lemma fuse_read_fields [simp]:
  "fst (fuse_read sel s) = bus_in s 0"
  "mode (snd (fuse_read sel s)) = mode s" "PAGEL (snd (fuse_read sel s)) = PAGEL s"
  "BS2 (snd (fuse_read sel s)) = BS2 s" "pin_in (snd (fuse_read sel s)) = pin_in s"
  "bus_in (snd (fuse_read sel s)) = (\<lambda>n. bus_in s (Suc n))"
  "serial_in (snd (fuse_read sel s)) = serial_in s"
  by (simp_all add: fuse_read_def prim_defs get_PIND_def split: fusesel.split)

subsection \<open>The select lines of the parallel engine\<close>

text \<open>
  Claim C1, as amended. With the pin roles as \<^verbatim>\<open>setup\<close> leaves them, \<^verbatim>\<open>fuse_read\<close> and
  \<^verbatim>\<open>fuse_burn\<close> drive the same levels on \<^verbatim>\<open>(BS1, BS2)\<close> for the low fuse (both low) and for
  the extended fuse (\<^verbatim>\<open>BS1\<close> low, \<^verbatim>\<open>BS2\<close> high). For the high fuse they differ: the read
  drives both lines high, the burn drives \<^verbatim>\<open>BS1\<close> high and \<^verbatim>\<open>BS2\<close> low.
\<close>

theorem select_lines_read_vs_burn:
  assumes "pins_ok s"
  shows "read_select LFUSE_SEL s = (Some LOW, Some LOW) \<and>
         burn_select fuse LFUSE_SEL s = (Some LOW, Some LOW) \<and>
         read_select EFUSE_SEL s = (Some LOW, Some HIGH) \<and>
         burn_select fuse EFUSE_SEL s = (Some LOW, Some HIGH) \<and>
         read_select HFUSE_SEL s = (Some HIGH, Some HIGH) \<and>
         burn_select fuse HFUSE_SEL s = (Some HIGH, Some LOW)"
  using assms
  by (simp add: read_select_def burn_select_def before_def fuse_read_trace fuse_read_events_def
      fuse_burn_strobe_trace fuse_burn_strobe_events_def send_cmd_events_def pins_ok_def
      split: if_splits)

theorem select_lines_read_vs_burn_witness:
  "pins_ok (power_on (\<lambda>n. HIGH) (\<lambda>n. 0) []) \<and>
   read_select LFUSE_SEL (power_on (\<lambda>n. HIGH) (\<lambda>n. 0) []) = (Some LOW, Some LOW) \<and>
   burn_select 0xDF LFUSE_SEL (power_on (\<lambda>n. HIGH) (\<lambda>n. 0) []) = (Some LOW, Some LOW) \<and>
   read_select HFUSE_SEL (power_on (\<lambda>n. HIGH) (\<lambda>n. 0) []) = (Some HIGH, Some HIGH) \<and>
   burn_select 0xDF HFUSE_SEL (power_on (\<lambda>n. HIGH) (\<lambda>n. 0) []) = (Some HIGH, Some LOW)"
proof -
  have ok: "pins_ok (power_on (\<lambda>n. HIGH) (\<lambda>n. 0) [])"
    by (simp add: pins_ok_def power_on_def)
  show ?thesis
    using ok select_lines_read_vs_burn [OF ok, of "0xDF"] by simp
qed

text \<open>
  Claim C1 as stated fails for the high fuse: in the ATmega mode the two paths leave
  different levels on the select lines.
\<close>

theorem select_lines_counterexample:
  "read_select HFUSE_SEL (power_on (\<lambda>n. HIGH) (\<lambda>n. 0) []) \<noteq>
   burn_select 0xDF HFUSE_SEL (power_on (\<lambda>n. HIGH) (\<lambda>n. 0) [])"
  by (simp add: read_select_def burn_select_def before_def fuse_read_trace fuse_read_events_def
      fuse_burn_strobe_trace fuse_burn_strobe_events_def send_cmd_events_def power_on_def)

subsection \<open>Busy-waits\<close>

lemma polls_Suc: "polls p f (Suc n) = DigitalRead p (f 0) # polls p (\<lambda>j. f (Suc j)) n"
  by (simp only: polls_def map_upt_Suc)

lemma polls_all: "\<forall>j<n. f j = l \<Longrightarrow> polls p f n = replicate n (DigitalRead p l)"
  by (induction n) (simp_all add: polls_def replicate_append_same)

lemma polls_last:
  "\<forall>j<n. f j = l \<Longrightarrow> polls p f (Suc n) = replicate n (DigitalRead p l) @ [DigitalRead p (f n)]"
  using polls_all [of n f l p] by (simp add: polls_def)

lemma wait_while_returns:
  "pin_in s n \<noteq> l \<Longrightarrow> \<forall>j<n. pin_in s j = l \<Longrightarrow>
   wait_while p l s =
     Some (s\<lparr>trace := trace s @ polls p (pin_in s) (Suc n), pin_in := (\<lambda>k. pin_in s (k + Suc n))\<rparr>)"
proof (induction n arbitrary: s)
  case 0
  then show ?case
    by (subst wait_while.simps) (simp add: digitalRead_def polls_def)
next
  case (Suc n)
  let ?s1 = "snd (digitalRead p s)"
  have first: "pin_in s 0 = l"
    using Suc.prems(2) by simp
  have "pin_in ?s1 n \<noteq> l" and "\<forall>j<n. pin_in ?s1 j = l"
    using Suc.prems by (simp_all add: digitalRead_def)
  then have "wait_while p l ?s1 =
      Some (?s1\<lparr>trace := trace ?s1 @ polls p (pin_in ?s1) (Suc n),
                pin_in := (\<lambda>k. pin_in ?s1 (k + Suc n))\<rparr>)"
    by (rule Suc.IH)
  moreover have "wait_while p l s = wait_while p l ?s1"
    using first by (subst wait_while.simps) (simp add: digitalRead_def)
  ultimately show ?case
    by (simp add: digitalRead_def polls_Suc [of p "pin_in s" "Suc n"])
qed

lemma wait_while_needs_change:
  assumes "wait_while p l s = Some s'"
  shows "\<exists>n. pin_in s n \<noteq> l"
proof (rule wait_while.raw_induct [where P = "\<lambda>p l s s'. \<exists>n. pin_in s n \<noteq> l", OF _ assms])
  fix w :: "pin \<Rightarrow> level \<Rightarrow> world \<Rightarrow> world option" and p l s s'
  assume IH: "\<And>p l s y. w p l s = Some y \<Longrightarrow> \<exists>n. pin_in s n \<noteq> l"
    and eq: "(if fst (digitalRead p s) = l then w p l (snd (digitalRead p s))
              else Some (snd (digitalRead p s))) = Some s'"
  show "\<exists>n. pin_in s n \<noteq> l"
  proof (cases "fst (digitalRead p s) = l")
    case True
    with eq have "w p l (snd (digitalRead p s)) = Some s'"
      by simp
    then obtain n where "pin_in (snd (digitalRead p s)) n \<noteq> l"
      using IH by blast
    then show ?thesis
      by (auto simp: digitalRead_def)
  next
    case False
    then show ?thesis
      by (auto simp: digitalRead_def)
  qed
qed

lemma wait_while_diverges: "\<forall>n. pin_in s n = l \<Longrightarrow> wait_while p l s = None"
  using wait_while_needs_change [of p l s] by (cases "wait_while p l s") auto

lemma wait_while_SomeD:
  assumes "wait_while p l s = Some s'"
  obtains n where "pin_in s n \<noteq> l" and "\<forall>j<n. pin_in s j = l"
    and "s' = s\<lparr>trace := trace s @ polls p (pin_in s) (Suc n),
                 pin_in := (\<lambda>k. pin_in s (k + Suc n))\<rparr>"
proof -
  from assms obtain m where m: "pin_in s m \<noteq> l"
    using wait_while_needs_change by blast
  define n where "n = (LEAST m. pin_in s m \<noteq> l)"
  have n: "pin_in s n \<noteq> l"
    unfolding n_def using m by (rule LeastI)
  have below: "\<forall>j<n. pin_in s j = l"
    unfolding n_def using not_less_Least by blast
  from wait_while_returns [OF n below, of p] assms
  have "s' = s\<lparr>trace := trace s @ polls p (pin_in s) (Suc n),
               pin_in := (\<lambda>k. pin_in s (k + Suc n))\<rparr>"
    by simp
  with n below show thesis
    by (rule that)
qed

subsection \<open>The serial frames\<close>

lemma sclk_trace: "trace (sclk s) = trace s @ pulse"
  by (simp add: sclk_def pulse_def prim_defs)

lemma sclk_fields [simp]:
  "mode (sclk s) = mode s" "PAGEL (sclk s) = PAGEL s" "BS2 (sclk s) = BS2 s"
  "pin_in (sclk s) = pin_in s" "bus_in (sclk s) = bus_in s" "serial_in (sclk s) = serial_in s"
  by (simp_all add: sclk_def prim_defs)

lemma msb_after_shift: "i < 8 \<Longrightarrow> (push_bit i (uint (d :: byte)) AND 0x80 \<noteq> 0) = bit d (7 - i)"
proof -
  assume "i < 8"
  have "(push_bit i (uint d) AND 0x80 \<noteq> 0) = bit (push_bit i (uint d)) 7"
    using and_exp_eq_0_iff_not_bit [of "push_bit i (uint d)" 7] by simp
  also have "\<dots> = bit d (7 - i)"
    using \<open>i < 8\<close> by (auto simp: bit_push_bit_iff bit_uint_iff)
  finally show ?thesis .
qed

lemma HVSP_last_bits_unfold: "HVSP_last_bits 0 s =
    sclk (digitalWrite SII LOW (digitalWrite SDI LOW
      (sclk (digitalWrite SII LOW (digitalWrite SDI LOW s)))))"
  by (simp add: HVSP_last_bits.simps Let_def)

lemma HVSP_last_bits_trace: "trace (HVSP_last_bits 0 s) = trace s @ zero_events @ zero_events"
  by (simp add: HVSP_last_bits_unfold sclk_trace zero_events_def digitalWrite_def)

lemma HVSP_last_bits_fields [simp]:
  "mode (HVSP_last_bits 0 s) = mode s" "PAGEL (HVSP_last_bits 0 s) = PAGEL s"
  "BS2 (HVSP_last_bits 0 s) = BS2 s" "pin_in (HVSP_last_bits 0 s) = pin_in s"
  "bus_in (HVSP_last_bits 0 s) = bus_in s" "serial_in (HVSP_last_bits 0 s) = serial_in s"
  by (simp_all add: HVSP_last_bits_unfold digitalWrite_def)

lemma HVSP_write_bits_step:
  "i < 8 \<Longrightarrow> HVSP_write_bits i d ins s =
     HVSP_write_bits (Suc i) d ins
       (sclk (digitalWrite SII (lvl (bit ins (7 - i))) (digitalWrite SDI (lvl (bit d (7 - i))) s)))"
  by (subst HVSP_write_bits.simps) (simp add: Let_def msb_after_shift lvl_def)

lemma HVSP_write_bits_all:
  "i \<le> 8 \<Longrightarrow>
   trace (HVSP_write_bits i d ins s) = trace s @ concat (map (bit_events d ins) [i..<8]) \<and>
   mode (HVSP_write_bits i d ins s) = mode s \<and> PAGEL (HVSP_write_bits i d ins s) = PAGEL s \<and>
   BS2 (HVSP_write_bits i d ins s) = BS2 s \<and> pin_in (HVSP_write_bits i d ins s) = pin_in s \<and>
   bus_in (HVSP_write_bits i d ins s) = bus_in s \<and>
   serial_in (HVSP_write_bits i d ins s) = serial_in s"
proof (induction "8 - i" arbitrary: i s)
  case 0
  then have "i = 8" by simp
  then show ?case by (simp add: HVSP_write_bits.simps)
next
  case (Suc n)
  then have i: "i < 8" and n: "n = 8 - Suc i" and le: "Suc i \<le> 8"
    by simp_all
  show ?case
    using Suc.hyps(1) [OF n le] i
    by (simp add: HVSP_write_bits_step sclk_trace bit_events_def digitalWrite_def
        upt_conv_Cons [of i 8])
qed

lemma HVSP_write_trace: "trace (HVSP_write d ins s) = trace s @ HVSP_write_events d ins"
  using HVSP_write_bits_all [of 0 d ins]
  by (simp add: HVSP_write_def HVSP_write_events_def Let_def HVSP_last_bits_trace sclk_trace
      zero_events_def digitalWrite_def)

lemma HVSP_write_fields [simp]:
  "mode (HVSP_write d ins s) = mode s" "PAGEL (HVSP_write d ins s) = PAGEL s"
  "BS2 (HVSP_write d ins s) = BS2 s" "pin_in (HVSP_write d ins s) = pin_in s"
  "bus_in (HVSP_write d ins s) = bus_in s" "serial_in (HVSP_write d ins s) = serial_in s"
  using HVSP_write_bits_all [of 0 d ins]
  by (simp_all add: HVSP_write_def Let_def digitalWrite_def)

lemma bit_0x40_shifted:
  "i < 7 \<Longrightarrow> bit (word_of_int (drop_bit i 0x40) :: byte) n = (n = 6 - i)"
proof -
  assume i: "i < 7"
  have "(0x40 :: int) = 2 ^ 6" by simp
  then have "drop_bit i (0x40 :: int) = 2 ^ (6 - i)"
    using i by (simp only: drop_bit_exp_eq) simp
  then show ?thesis
    using i by (auto simp: bit_word_of_int_iff bit_exp_iff)
qed

lemma HVSP_read_bits_step:
  "i < 7 \<Longrightarrow> HVSP_read_bits i d ins r s =
     HVSP_read_bits (Suc i) d ins
       (if pin_in s 0 = HIGH then r OR word_of_int (drop_bit i 0x40) else r)
       (snd (digitalRead SDO (sclk (digitalWrite SII (lvl (bit ins (7 - i)))
          (digitalWrite SDI (lvl (bit d (7 - i))) s)))))"
  by (subst HVSP_read_bits.simps)
     (simp add: Let_def msb_after_shift lvl_def digitalRead_def split_def digitalWrite_def)

lemma HVSP_read_bits_done: "HVSP_read_bits 8 d ins r s = (r, s)"
  by (subst HVSP_read_bits.simps) simp

lemma HVSP_read_bits_last:
  "HVSP_read_bits 7 d ins r s =
     (r, sclk (digitalWrite SII (lvl (bit ins 0)) (digitalWrite SDI (lvl (bit d 0)) s)))"
  by (subst HVSP_read_bits.simps)
     (simp add: Let_def msb_after_shift [of 7, simplified] lvl_def HVSP_read_bits_done)

lemma HVSP_read_bits_all:
  "i \<le> 7 \<Longrightarrow>
   trace (snd (HVSP_read_bits i d ins r s)) =
     trace s @ concat (map (\<lambda>k. bit_events d ins k @ [DigitalRead SDO (pin_in s (k - i))]) [i..<7]) @
     bit_events d ins 7 \<and>
   (\<forall>n. bit (fst (HVSP_read_bits i d ins r s)) n = (bit r n \<or> sampled_bits i (pin_in s) n)) \<and>
   pin_in (snd (HVSP_read_bits i d ins r s)) = (\<lambda>k. pin_in s (k + (7 - i))) \<and>
   mode (snd (HVSP_read_bits i d ins r s)) = mode s \<and>
   PAGEL (snd (HVSP_read_bits i d ins r s)) = PAGEL s \<and>
   BS2 (snd (HVSP_read_bits i d ins r s)) = BS2 s \<and>
   bus_in (snd (HVSP_read_bits i d ins r s)) = bus_in s \<and>
   serial_in (snd (HVSP_read_bits i d ins r s)) = serial_in s"
proof (induction "7 - i" arbitrary: i r s)
  case 0
  then have "i = 7" by simp
  then show ?case
    by (auto simp: HVSP_read_bits_last sclk_trace bit_events_def digitalWrite_def
        sampled_bits_def)
next
  case (Suc m)
  then have i: "i < 7" and m: "m = 7 - Suc i" and le: "Suc i \<le> 7"
    by simp_all
  let ?r = "if pin_in s 0 = HIGH then r OR word_of_int (drop_bit i 0x40) else r"
  let ?s = "snd (digitalRead SDO (sclk (digitalWrite SII (lvl (bit ins (7 - i)))
          (digitalWrite SDI (lvl (bit d (7 - i))) s))))"
  note IH = Suc.hyps(1) [OF m le, of ?r ?s]
  have step: "HVSP_read_bits i d ins r s = HVSP_read_bits (Suc i) d ins ?r ?s"
    using i by (rule HVSP_read_bits_step)
  have pin: "pin_in ?s = (\<lambda>k. pin_in s (Suc k))"
    by (simp add: digitalRead_def digitalWrite_def)
  have tr: "trace ?s = trace s @ bit_events d ins i @ [DigitalRead SDO (pin_in s 0)]"
    by (simp add: digitalRead_def digitalWrite_def sclk_trace bit_events_def)
  have shift: "\<And>k. Suc i \<le> k \<Longrightarrow> Suc (k - Suc i) = k - i"
    by simp
  have maps: "map (\<lambda>k. bit_events d ins k @ [DigitalRead SDO (pin_in s (Suc (k - Suc i)))]) [Suc i..<7]
      = map (\<lambda>k. bit_events d ins k @ [DigitalRead SDO (pin_in s (k - i))]) [Suc i..<7]"
    by (rule map_cong) (simp_all add: shift)
  have bits: "\<And>n. (bit ?r n \<or> sampled_bits (Suc i) (\<lambda>k. pin_in s (Suc k)) n)
      = (bit r n \<or> sampled_bits i (pin_in s) n)"
  proof -
    fix n
    have "sampled_bits i (pin_in s) n =
        ((n = 6 - i \<and> pin_in s 0 = HIGH) \<or> sampled_bits (Suc i) (\<lambda>k. pin_in s (Suc k)) n)"
      unfolding sampled_bits_def
    proof (intro iffI; elim exE conjE disjE)
      fix k assume k: "i \<le> k" "k < 7" "n = 6 - k" "pin_in s (k - i) = HIGH"
      show "(n = 6 - i \<and> pin_in s 0 = HIGH) \<or>
            (\<exists>k. Suc i \<le> k \<and> k < 7 \<and> n = 6 - k \<and> pin_in s (Suc (k - Suc i)) = HIGH)"
      proof (cases "k = i")
        case True
        with k show ?thesis by simp
      next
        case False
        with k have "Suc i \<le> k" by simp
        with k shift [of k] show ?thesis by auto
      qed
    next
      assume "n = 6 - i" "pin_in s 0 = HIGH"
      with i show "\<exists>k\<ge>i. k < 7 \<and> n = 6 - k \<and> pin_in s (k - i) = HIGH"
        by (intro exI [of _ i]) simp
    next
      fix k assume k: "Suc i \<le> k" "k < 7" "n = 6 - k" "pin_in s (Suc (k - Suc i)) = HIGH"
      with shift [of k] show "\<exists>k\<ge>i. k < 7 \<and> n = 6 - k \<and> pin_in s (k - i) = HIGH"
        by (intro exI [of _ k]) simp
    qed
    then show "(bit ?r n \<or> sampled_bits (Suc i) (\<lambda>k. pin_in s (Suc k)) n)
      = (bit r n \<or> sampled_bits i (pin_in s) n)"
      using i by (auto simp: bit_or_iff bit_0x40_shifted)
  qed
  have idx: "\<And>k. Suc (k + (7 - Suc i)) = k + (7 - i)"
    using i by simp
  have flds: "mode ?s = mode s" "PAGEL ?s = PAGEL s" "BS2 ?s = BS2 s" "bus_in ?s = bus_in s"
    "serial_in ?s = serial_in s"
    by (simp_all add: digitalRead_def digitalWrite_def)
  from IH have IH': "trace (snd (HVSP_read_bits (Suc i) d ins ?r ?s)) =
      (trace s @ bit_events d ins i @ [DigitalRead SDO (pin_in s 0)]) @
      concat (map (\<lambda>k. bit_events d ins k @ [DigitalRead SDO (pin_in s (k - i))]) [Suc i..<7]) @
      bit_events d ins 7"
    "\<And>n. bit (fst (HVSP_read_bits (Suc i) d ins ?r ?s)) n = (bit r n \<or> sampled_bits i (pin_in s) n)"
    "pin_in (snd (HVSP_read_bits (Suc i) d ins ?r ?s)) = (\<lambda>k. pin_in s (k + (7 - i)))"
    "mode (snd (HVSP_read_bits (Suc i) d ins ?r ?s)) = mode s"
    "PAGEL (snd (HVSP_read_bits (Suc i) d ins ?r ?s)) = PAGEL s"
    "BS2 (snd (HVSP_read_bits (Suc i) d ins ?r ?s)) = BS2 s"
    "bus_in (snd (HVSP_read_bits (Suc i) d ins ?r ?s)) = bus_in s"
    "serial_in (snd (HVSP_read_bits (Suc i) d ins ?r ?s)) = serial_in s"
    unfolding pin tr flds maps bits idx by blast+
  show ?case
    unfolding step using i by (simp add: IH' upt_conv_Cons [of i 7])
qed

lemma HVSP_read_trace:
  "trace (snd (HVSP_read d ins s)) = trace s @ HVSP_read_events d ins (pin_in s)"
  using HVSP_read_bits_all [of 0 d ins]
  by (simp add: HVSP_read_def HVSP_read_events_def Let_def split_def HVSP_last_bits_trace
      sclk_trace zero_events_def digitalWrite_def digitalRead_def)

lemma HVSP_read_fields [simp]:
  "mode (snd (HVSP_read d ins s)) = mode s" "PAGEL (snd (HVSP_read d ins s)) = PAGEL s"
  "BS2 (snd (HVSP_read d ins s)) = BS2 s"
  "pin_in (snd (HVSP_read d ins s)) = (\<lambda>k. pin_in s (k + 8))"
  "bus_in (snd (HVSP_read d ins s)) = bus_in s"
  "serial_in (snd (HVSP_read d ins s)) = serial_in s"
  using HVSP_read_bits_all [of 0 d ins]
  by (simp_all add: HVSP_read_def Let_def split_def digitalWrite_def digitalRead_def add.commute)

lemma HVSP_read_response:
  "bit (fst (HVSP_read d ins s)) n =
     (if n = 7 then pin_in s 0 = HIGH else n < 7 \<and> pin_in s (7 - n) = HIGH)"
proof -
  let ?s1 = "snd (digitalRead SDO (sclk (digitalWrite SII LOW (digitalWrite SDI LOW
               (digitalWrite SCI LOW s)))))"
  let ?r0 = "if pin_in s 0 = HIGH then (0 :: byte) OR 0x80 else 0"
  have fst_eq: "fst (HVSP_read d ins s) = fst (HVSP_read_bits 0 d ins ?r0 ?s1)"
    by (simp add: HVSP_read_def Let_def split_def digitalWrite_def digitalRead_def)
  have pin: "pin_in ?s1 = (\<lambda>k. pin_in s (Suc k))"
    by (simp add: digitalRead_def digitalWrite_def)
  have r0: "bit ?r0 n = (n = 7 \<and> pin_in s 0 = HIGH)"
    using bit_exp_iff [where ?'a = byte, of 7 n] by (auto simp: bit_or_iff)
  have sb: "sampled_bits 0 (\<lambda>k. pin_in s (Suc k)) n = (n < 7 \<and> pin_in s (7 - n) = HIGH)"
  proof
    assume "sampled_bits 0 (\<lambda>k. pin_in s (Suc k)) n"
    then obtain k where "k < 7" "n = 6 - k" "pin_in s (Suc k) = HIGH"
      by (auto simp: sampled_bits_def)
    moreover from this have "7 - n = Suc k" by arith
    ultimately show "n < 7 \<and> pin_in s (7 - n) = HIGH" by simp
  next
    assume a: "n < 7 \<and> pin_in s (7 - n) = HIGH"
    then have "Suc (6 - n) = 7 - n" by arith
    with a show "sampled_bits 0 (\<lambda>k. pin_in s (Suc k)) n"
      unfolding sampled_bits_def by (intro exI [of _ "6 - n"]) simp
  qed
  show ?thesis
    unfolding fst_eq using HVSP_read_bits_all [of 0 d ins ?r0 ?s1]
    by (simp only: pin r0 sb) auto
qed

lemma upt_8: "[0..<8] = [0, 1, 2, 3, 4, 5, 6, 7]"
  by (simp add: upt_rec)

lemma upt_7: "[0..<7] = [0, 1, 2, 3, 4, 5, 6]"
  by (simp add: upt_rec)

lemma clocked_HVSP_write_events:
  "clocked c0 d0 i0 (HVSP_write_events d i @ rest) = SerialFrame d i @ clocked LOW LOW LOW rest"
  by (simp add: HVSP_write_events_def SerialFrame_def zero_events_def bit_events_def pulse_def
      upt_8)

lemma clocked_HVSP_read_events:
  "clocked c0 d0 i0 (HVSP_read_events d i f @ rest) = SerialFrame d i @ clocked LOW LOW LOW rest"
  by (simp add: HVSP_read_events_def SerialFrame_def zero_events_def bit_events_def pulse_def
      upt_8 upt_7)

lemma clocked_polls [simp]: "clocked c0 d0 i0 (polls p f n @ rest) = clocked c0 d0 i0 rest"
  by (induction n arbitrary: f) (simp_all add: polls_Suc, simp add: polls_def)

text \<open>
  Claim C3. Whatever the two bytes and the levels of the three lines before the call, one
  call of \<^verbatim>\<open>HVSP_read\<close> or of \<^verbatim>\<open>HVSP_write\<close> raises the clock \<^verbatim>\<open>SCI\<close> exactly 11 times, and
  what these edges clock into the target is the serial frame: one zero bit, the eight bits
  of the data and instruction bytes, two zero bits.
\<close>

theorem HVSP_frame_clock_pulses:
  "length (clocked sci sdi sii (emitted s (snd (HVSP_read dataByte instrByte s)))) = 11 \<and>
   length (clocked sci sdi sii (emitted s (HVSP_write dataByte instrByte s))) = 11 \<and>
   clocked sci sdi sii (emitted s (snd (HVSP_read dataByte instrByte s))) =
     [(LOW, LOW)] @
     map (\<lambda>k. (lvl (bit dataByte (7 - k)), lvl (bit instrByte (7 - k)))) [0, 1, 2, 3, 4, 5, 6, 7] @
     [(LOW, LOW), (LOW, LOW)] \<and>
   clocked sci sdi sii (emitted s (HVSP_write dataByte instrByte s)) =
     [(LOW, LOW)] @
     map (\<lambda>k. (lvl (bit dataByte (7 - k)), lvl (bit instrByte (7 - k)))) [0, 1, 2, 3, 4, 5, 6, 7] @
     [(LOW, LOW), (LOW, LOW)]"
  using clocked_HVSP_read_events [of sci sdi sii dataByte instrByte "pin_in s" "[]"]
    clocked_HVSP_write_events [of sci sdi sii dataByte instrByte "[]"]
  by (simp add: HVSP_read_trace HVSP_write_trace SerialFrame_def upt_8)

lemma sdo_samples_HVSP_read_events:
  "sdo_samples 0 sci prev (HVSP_read_events d i f) =
     map (\<lambda>k. (Suc k, Some (DigitalWrite SCI LOW), f k)) [0..<8]"
  by (simp add: HVSP_read_events_def zero_events_def bit_events_def pulse_def upt_8 upt_7)
     (simp add: eval_nat_numeral)

text \<open>
  Claim C4. The response of \<^verbatim>\<open>HVSP_read\<close> is made of eight samples of \<^verbatim>\<open>SDO\<close>: bit 7 is the
  sample taken right after the clock pulse of the leading zero bit, and bits 6 down to 0
  are the samples taken right after the pulses of the data bits 0 to 6. Each sample comes
  directly after the falling edge of its pulse (pulses 1 to 8 of the frame); none follows
  the pulse of the last data bit or those of the two trailing zero bits, and the call uses
  up exactly eight levels of the input.
\<close>

theorem HVSP_read_response_assembly:
  "map (bit (fst (HVSP_read dataByte instrByte s))) [7, 6, 5, 4, 3, 2, 1, 0] =
     map (\<lambda>k. pin_in s k = HIGH) [0, 1, 2, 3, 4, 5, 6, 7] \<and>
   sdo_samples 0 sci prev (emitted s (snd (HVSP_read dataByte instrByte s))) =
     map (\<lambda>k. (Suc k, Some (DigitalWrite SCI LOW), pin_in s k)) [0, 1, 2, 3, 4, 5, 6, 7] \<and>
   pin_in (snd (HVSP_read dataByte instrByte s)) = (\<lambda>k. pin_in s (k + 8))"
  using sdo_samples_HVSP_read_events [of sci prev dataByte instrByte "pin_in s"]
  by (simp add: HVSP_read_response HVSP_read_trace upt_8)

subsection \<open>The busy-waits of the fuse writes\<close>

lemma level_neq [simp]: "(l \<noteq> LOW) = (l = HIGH)" "(l \<noteq> HIGH) = (l = LOW)"
  by (cases l; simp)+

lemma wait_low_returns:
  "pin_in s n = HIGH \<Longrightarrow> \<forall>j<n. pin_in s j = LOW \<Longrightarrow>
   wait_while p LOW s = Some (after_polls p n s)"
  using wait_while_returns [of s n LOW p] polls_last [of n "pin_in s" LOW p]
  by (simp add: after_polls_def)

lemma wait_low_SomeD:
  assumes "wait_while p LOW s = Some s'"
  obtains n where "pin_in s n = HIGH" and "\<forall>j<n. pin_in s j = LOW" and "s' = after_polls p n s"
proof -
  from assms obtain n where n: "pin_in s n \<noteq> LOW" "\<forall>j<n. pin_in s j = LOW"
    by (rule wait_while_SomeD)
  with wait_low_returns [of s n p] assms have "s' = after_polls p n s"
    by simp
  with n show thesis
    by (intro that [of n]) simp_all
qed

lemma after_polls_fields [simp]:
  "trace (after_polls p n s) = trace s @ replicate n (DigitalRead p LOW) @ [DigitalRead p HIGH]"
  "mode (after_polls p n s) = mode s" "PAGEL (after_polls p n s) = PAGEL s"
  "BS2 (after_polls p n s) = BS2 s" "pin_in (after_polls p n s) = (\<lambda>k. pin_in s (k + Suc n))"
  "bus_in (after_polls p n s) = bus_in s" "serial_in (after_polls p n s) = serial_in s"
  by (simp_all add: after_polls_def)

lemma fuse_burn_returns:
  "pin_in s n = HIGH \<Longrightarrow> \<forall>j<n. pin_in s j = LOW \<Longrightarrow>
   fuse_burn fuse sel s =
     Some (digitalWrite (BS2 s) LOW (digitalWrite BS1 LOW
       (after_polls RDY n (fuse_burn_strobe fuse sel s))))"
  by (simp add: fuse_burn_def wait_low_returns [of _ n])

lemma HVSP_burn_lfuse_returns:
  "pin_in s n = HIGH \<Longrightarrow> \<forall>j<n. pin_in s j = LOW \<Longrightarrow>
   HVSP_burn_lfuse fuse s =
     Some (after_polls SDO n
       (HVSP_write 0x00 HVSP_WRITE_LFUSE_INSTR4 (HVSP_write 0x00 HVSP_WRITE_LFUSE_INSTR3
         (HVSP_write fuse HVSP_WRITE_LFUSE_INSTR2
           (HVSP_write HVSP_WRITE_LFUSE_DATA HVSP_WRITE_LFUSE_INSTR1 s)))))"
  by (simp add: HVSP_burn_lfuse_def Let_def wait_low_returns [of _ n])

lemma HVSP_burn_hfuse_returns:
  "pin_in s n = HIGH \<Longrightarrow> \<forall>j<n. pin_in s j = LOW \<Longrightarrow>
   HVSP_burn_hfuse fuse s =
     Some (after_polls SDO n
       (HVSP_write 0x00 HVSP_WRITE_HFUSE_INSTR4 (HVSP_write 0x00 HVSP_WRITE_HFUSE_INSTR3
         (HVSP_write fuse HVSP_WRITE_HFUSE_INSTR2
           (HVSP_write HVSP_WRITE_HFUSE_DATA HVSP_WRITE_HFUSE_INSTR1 s)))))"
  by (simp add: HVSP_burn_hfuse_def Let_def wait_low_returns [of _ n])

lemma HVSP_burn_efuse_returns:
  "pin_in s n = HIGH \<Longrightarrow> \<forall>j<n. pin_in s j = LOW \<Longrightarrow>
   HVSP_burn_efuse fuse s =
     Some (after_polls SDO n
       (HVSP_write 0x00 HVSP_WRITE_EFUSE_INSTR4 (HVSP_write 0x00 HVSP_WRITE_EFUSE_INSTR3
         (HVSP_write fuse HVSP_WRITE_EFUSE_INSTR2
           (HVSP_write HVSP_WRITE_EFUSE_DATA HVSP_WRITE_EFUSE_INSTR1 s)))))"
  by (simp add: HVSP_burn_efuse_def Let_def wait_low_returns [of _ n])

lemma burn_fuses_ready:
  assumes "\<forall>k. pin_in s k = HIGH"
  shows "burn_fuses burn_efuse lfuse hfuse efuse s \<noteq> None"
  using assms
  by (simp add: burn_fuses_def HVSP_burn_fuses_def HVPP_burn_fuses_def
      fuse_burn_returns [of _ 0] HVSP_burn_lfuse_returns [of _ 0]
      HVSP_burn_hfuse_returns [of _ 0] HVSP_burn_efuse_returns [of _ 0] digitalWrite_def)

lemma replicate_2: "replicate 2 x = [x, x]"
  by (simp add: numeral_2_eq_2)

text \<open>
  Claim C5. After the pulse on \<^verbatim>\<open>WR\<close> (\<^verbatim>\<open>fuse_burn\<close>) or after the fourth frame (the three
  serial writes) the code polls the ready line without bound. When the line never reads
  high the write never returns; when the first high level is the one of poll \<open>n + 1\<close>, the
  write returns right after that poll.
\<close>

theorem fuse_write_busy_wait:
  "((\<forall>k. pin_in s k = LOW) \<longrightarrow>
      fuse_burn fuse sel s = None \<and> HVSP_burn_lfuse fuse s = None \<and>
      HVSP_burn_hfuse fuse s = None \<and> HVSP_burn_efuse fuse s = None) \<and>
   (pin_in s n = HIGH \<and> (\<forall>j<n. pin_in s j = LOW) \<longrightarrow>
      fuse_burn fuse sel s =
        Some (digitalWrite (BS2 s) LOW (digitalWrite BS1 LOW
          (after_polls RDY n (fuse_burn_strobe fuse sel s)))) \<and>
      HVSP_burn_lfuse fuse s =
        Some (after_polls SDO n
          (HVSP_write 0x00 HVSP_WRITE_LFUSE_INSTR4 (HVSP_write 0x00 HVSP_WRITE_LFUSE_INSTR3
            (HVSP_write fuse HVSP_WRITE_LFUSE_INSTR2
              (HVSP_write HVSP_WRITE_LFUSE_DATA HVSP_WRITE_LFUSE_INSTR1 s))))) \<and>
      HVSP_burn_hfuse fuse s =
        Some (after_polls SDO n
          (HVSP_write 0x00 HVSP_WRITE_HFUSE_INSTR4 (HVSP_write 0x00 HVSP_WRITE_HFUSE_INSTR3
            (HVSP_write fuse HVSP_WRITE_HFUSE_INSTR2
              (HVSP_write HVSP_WRITE_HFUSE_DATA HVSP_WRITE_HFUSE_INSTR1 s))))) \<and>
      HVSP_burn_efuse fuse s =
        Some (after_polls SDO n
          (HVSP_write 0x00 HVSP_WRITE_EFUSE_INSTR4 (HVSP_write 0x00 HVSP_WRITE_EFUSE_INSTR3
            (HVSP_write fuse HVSP_WRITE_EFUSE_INSTR2
              (HVSP_write HVSP_WRITE_EFUSE_DATA HVSP_WRITE_EFUSE_INSTR1 s))))))"
proof (intro conjI impI)
  assume never: "\<forall>k. pin_in s k = LOW"
  then show "fuse_burn fuse sel s = None"
    by (simp add: fuse_burn_def wait_while_diverges)
  from never show "HVSP_burn_lfuse fuse s = None"
    by (simp add: HVSP_burn_lfuse_def Let_def wait_while_diverges)
  from never show "HVSP_burn_hfuse fuse s = None"
    by (simp add: HVSP_burn_hfuse_def Let_def wait_while_diverges)
  from never show "HVSP_burn_efuse fuse s = None"
    by (simp add: HVSP_burn_efuse_def Let_def wait_while_diverges)
next
  assume ready: "pin_in s n = HIGH \<and> (\<forall>j<n. pin_in s j = LOW)"
  then show "fuse_burn fuse sel s =
        Some (digitalWrite (BS2 s) LOW (digitalWrite BS1 LOW
          (after_polls RDY n (fuse_burn_strobe fuse sel s))))"
    using fuse_burn_returns [of s n] by blast
  from ready show "HVSP_burn_lfuse fuse s =
        Some (after_polls SDO n
          (HVSP_write 0x00 HVSP_WRITE_LFUSE_INSTR4 (HVSP_write 0x00 HVSP_WRITE_LFUSE_INSTR3
            (HVSP_write fuse HVSP_WRITE_LFUSE_INSTR2
              (HVSP_write HVSP_WRITE_LFUSE_DATA HVSP_WRITE_LFUSE_INSTR1 s)))))"
    using HVSP_burn_lfuse_returns [of s n] by blast
  from ready show "HVSP_burn_hfuse fuse s =
        Some (after_polls SDO n
          (HVSP_write 0x00 HVSP_WRITE_HFUSE_INSTR4 (HVSP_write 0x00 HVSP_WRITE_HFUSE_INSTR3
            (HVSP_write fuse HVSP_WRITE_HFUSE_INSTR2
              (HVSP_write HVSP_WRITE_HFUSE_DATA HVSP_WRITE_HFUSE_INSTR1 s)))))"
    using HVSP_burn_hfuse_returns [of s n] by blast
  from ready show "HVSP_burn_efuse fuse s =
        Some (after_polls SDO n
          (HVSP_write 0x00 HVSP_WRITE_EFUSE_INSTR4 (HVSP_write 0x00 HVSP_WRITE_EFUSE_INSTR3
            (HVSP_write fuse HVSP_WRITE_EFUSE_INSTR2
              (HVSP_write HVSP_WRITE_EFUSE_DATA HVSP_WRITE_EFUSE_INSTR1 s)))))"
    using HVSP_burn_efuse_returns [of s n] by blast
qed

theorem fuse_write_busy_wait_witness:
  "(\<forall>k. pin_in (power_on (\<lambda>k. LOW) (\<lambda>k. 0) []) k = LOW) \<and>
   fuse_burn 0xDF HFUSE_SEL (power_on (\<lambda>k. LOW) (\<lambda>k. 0) []) = None \<and>
   HVSP_burn_lfuse 0x62 (power_on (\<lambda>k. LOW) (\<lambda>k. 0) []) = None \<and>
   pin_in (power_on (\<lambda>k. if k < 2 then LOW else HIGH) (\<lambda>k. 0) []) 2 = HIGH \<and>
   pin_in (power_on (\<lambda>k. if k < 2 then LOW else HIGH) (\<lambda>k. 0) []) 0 = LOW \<and>
   pin_in (power_on (\<lambda>k. if k < 2 then LOW else HIGH) (\<lambda>k. 0) []) 1 = LOW \<and>
   map_option (\<lambda>s. dropWhile (\<lambda>e. e \<noteq> DigitalWrite WR LOW) (trace s))
     (fuse_burn 0xDF HFUSE_SEL (power_on (\<lambda>k. if k < 2 then LOW else HIGH) (\<lambda>k. 0) [])) =
     Some [DigitalWrite WR LOW, Delay 1, DigitalWrite WR HIGH, DigitalRead RDY LOW,
           DigitalRead RDY LOW, DigitalRead RDY HIGH, DigitalWrite BS1 LOW,
           DigitalWrite (D 9) LOW]"
  using fuse_write_busy_wait [where s = "power_on (\<lambda>k. LOW) (\<lambda>k. 0) []" and n = 0
      and fuse = "0xDF" and sel = HFUSE_SEL]
    fuse_write_busy_wait [where s = "power_on (\<lambda>k. LOW) (\<lambda>k. 0) []" and n = 0
      and fuse = "0x62" and sel = HFUSE_SEL]
    fuse_write_busy_wait [where s = "power_on (\<lambda>k. if k < 2 then LOW else HIGH) (\<lambda>k. 0) []"
      and n = 2 and fuse = "0xDF" and sel = HFUSE_SEL]
  by (simp add: power_on_def fuse_burn_strobe_trace fuse_burn_strobe_events_def
      send_cmd_events_def digitalWrite_def replicate_2)

subsection \<open>The pin roles after \<^verbatim>\<open>setup\<close>\<close>

lemma ask_mode_roles:
  "ask_mode r s = Some s' \<Longrightarrow> PAGEL s' = PAGEL s \<and> BS2 s' = BS2 s"
proof (induction r s rule: ask_mode.induct)
  case (1 response s)
  show ?case
  proof (cases "response = 0")
    case False
    with 1(5) show ?thesis
      by (simp add: ask_mode.simps)
  next
    case True
    show ?thesis
    proof (cases "Serial_read_wait s")
      case None
      with True 1(5) show ?thesis
        by (simp add: ask_mode.simps)
    next
      case (Some a)
      obtain r s1 where a: "a = (r, s1)"
        by (cases a)
      have keep: "PAGEL s1 = PAGEL s" "BS2 s1 = BS2 s"
        using Some a by (auto simp: Serial_read_wait_def split: list.splits)
      note IH = 1(1-4) [OF True Some a [symmetric]]
      show ?thesis
        using 1(5) True Some a keep IH
        by (subst (asm) ask_mode.simps) (auto simp: Serial_println_def split: if_splits)
    qed
  qed
qed

lemma setup_pins_ok:
  assumes "sketch_setup (power_on pins bus chars) = Some s"
  shows "pins_ok s"
proof -
  from assms obtain s0 y where y: "ask_mode 0 s0 = Some y"
    and s0: "PAGEL s0 = A 5" "BS2 s0 = D 9"
    and s: "s = (case mode y of
                ATMEGA \<Rightarrow> Serial_println ''ATMEGA'' (emit (SerialWrite ''Selected mode: '') y)
              | TINY2313 \<Rightarrow> (Serial_println ''ATtiny2313''
                   (emit (SerialWrite ''Selected mode: '') y))\<lparr>PAGEL := BS1, BS2 := XA1\<rparr>
              | HVSP \<Rightarrow> Serial_println ''ATtiny/HVSP'' (emit (SerialWrite ''Selected mode: '') y))"
    by (auto simp: sketch_setup_def prim_defs power_on_def bind_eq_Some_conv)
  from ask_mode_roles [OF y] s0 have "PAGEL y = A 5" "BS2 y = D 9"
    by simp_all
  then show ?thesis
    unfolding s by (cases "mode y") (simp_all add: pins_ok_def prim_defs)
qed

subsection \<open>\<^verbatim>\<open>send_cmd\<close> and the shared pin of the ATtiny2313\<close>

text \<open>
  Claim C10. With the pin roles as \<^verbatim>\<open>setup\<close> leaves them: for the ATtiny2313, where \<^verbatim>\<open>BS2\<close>
  is the pin of \<^verbatim>\<open>XA1\<close>, the only write of \<^verbatim>\<open>send_cmd\<close> to that pin is the one that sets
  \<^verbatim>\<open>XA1\<close> high, so the pin is high when \<^verbatim>\<open>XTAL1\<close> rises and when \<^verbatim>\<open>send_cmd\<close> returns; in the
  other modes \<^verbatim>\<open>send_cmd\<close> writes \<^verbatim>\<open>BS2\<close> low, once, before \<^verbatim>\<open>XTAL1\<close> rises. The write of
  \<^verbatim>\<open>BS2\<close> low happens exactly when the mode is not the ATtiny2313.
\<close>

theorem send_cmd_BS2_guard:
  "pins_ok s \<Longrightarrow>
   (mode s = TINY2313 \<longrightarrow>
      BS2 s = XA1 \<and>
      writes_to XA1 (emitted s (send_cmd command s)) = [HIGH] \<and>
      driven XA1 (before (DigitalWrite XTAL1 HIGH) (emitted s (send_cmd command s))) = Some HIGH \<and>
      driven XA1 (emitted s (send_cmd command s)) = Some HIGH) \<and>
   (mode s \<noteq> TINY2313 \<longrightarrow>
      writes_to (BS2 s) (before (DigitalWrite XTAL1 HIGH) (emitted s (send_cmd command s))) = [LOW]) \<and>
   (DigitalWrite (BS2 s) LOW \<in> set (emitted s (send_cmd command s))) = (mode s \<noteq> TINY2313)"
  by (simp add: send_cmd_trace send_cmd_events_def before_def pins_ok_def split: if_splits)

theorem send_cmd_BS2_guard_witness:
  "pins_ok (the (sketch_setup (power_on (\<lambda>k. HIGH) (\<lambda>k. 0) [0x32]))) \<and>
   mode (the (sketch_setup (power_on (\<lambda>k. HIGH) (\<lambda>k. 0) [0x32]))) = TINY2313 \<and>
   writes_to XA1 (emitted (the (sketch_setup (power_on (\<lambda>k. HIGH) (\<lambda>k. 0) [0x32])))
     (send_cmd 0x04 (the (sketch_setup (power_on (\<lambda>k. HIGH) (\<lambda>k. 0) [0x32]))))) = [HIGH] \<and>
   pins_ok (the (sketch_setup (power_on (\<lambda>k. HIGH) (\<lambda>k. 0) [0x31]))) \<and>
   mode (the (sketch_setup (power_on (\<lambda>k. HIGH) (\<lambda>k. 0) [0x31]))) \<noteq> TINY2313 \<and>
   writes_to (D 9) (before (DigitalWrite XTAL1 HIGH)
     (emitted (the (sketch_setup (power_on (\<lambda>k. HIGH) (\<lambda>k. 0) [0x31])))
       (send_cmd 0x04 (the (sketch_setup (power_on (\<lambda>k. HIGH) (\<lambda>k. 0) [0x31])))))) = [LOW]"
proof -
  have two: "sketch_setup (power_on (\<lambda>k. HIGH) (\<lambda>k. 0) [0x32]) \<noteq> None"
    and one: "sketch_setup (power_on (\<lambda>k. HIGH) (\<lambda>k. 0) [0x31]) \<noteq> None"
    by (simp_all add: sketch_setup_def prim_defs power_on_def ask_mode.simps Serial_read_wait_def)
  have m2: "mode (the (sketch_setup (power_on (\<lambda>k. HIGH) (\<lambda>k. 0) [0x32]))) = TINY2313"
    and b1: "BS2 (the (sketch_setup (power_on (\<lambda>k. HIGH) (\<lambda>k. 0) [0x31]))) = D 9"
    and m1: "mode (the (sketch_setup (power_on (\<lambda>k. HIGH) (\<lambda>k. 0) [0x31]))) = ATMEGA"
    by (simp_all add: sketch_setup_def prim_defs power_on_def ask_mode.simps Serial_read_wait_def)
  from two one have ok: "pins_ok (the (sketch_setup (power_on (\<lambda>k. HIGH) (\<lambda>k. 0) [0x32])))"
    "pins_ok (the (sketch_setup (power_on (\<lambda>k. HIGH) (\<lambda>k. 0) [0x31])))"
    by (auto intro: setup_pins_ok)
  show ?thesis
    using send_cmd_BS2_guard [OF ok(1), of "0x04"] send_cmd_BS2_guard [OF ok(2), of "0x04"]
    by (simp add: ok m2 m1 b1)
qed

subsection \<open>Entering programming mode\<close>

text \<open>
  Claim C8, as amended. The events of lines 647 to 668, in order: in the serial mode only,
  \<^verbatim>\<open>SDI\<close> and \<^verbatim>\<open>SII\<close> low and \<^verbatim>\<open>SDO\<close> made an output and driven low; then \<^verbatim>\<open>VCC\<close> high, 80
  microseconds, \<^verbatim>\<open>RST\<close> low (the 12 V are applied); in the serial mode only, 1 microsecond
  and \<^verbatim>\<open>SDO\<close> released to an input; then 10 microseconds, \<^verbatim>\<open>OE\<close> and \<^verbatim>\<open>WR\<close> high.
\<close>

theorem enter_programming_mode_sequence:
  "emitted s (enter_programming_mode s) =
     (if mode s = HVSP
      then [DigitalWrite SDI LOW, DigitalWrite SII LOW, PinMode SDO OUTPUT, DigitalWrite SDO LOW]
      else []) @
     [DigitalWrite VCC HIGH, DelayMicroseconds 80, DigitalWrite RST LOW] @
     (if mode s = HVSP then [DelayMicroseconds 1, PinMode SDO INPUT] else []) @
     [DelayMicroseconds 10, DigitalWrite OE HIGH, DigitalWrite WR HIGH, Delay 1]"
  by (simp add: enter_programming_mode_def prim_defs)

text \<open>
  Claim C8 as stated puts the driving low of the data-out line after the 12 V are applied.
  In the serial mode the line is driven low before \<^verbatim>\<open>VCC\<close> is switched on, and not again.
\<close>

theorem enter_programming_mode_counterexample:
  "before (DigitalWrite VCC HIGH)
     (emitted ((power_on (\<lambda>k. HIGH) (\<lambda>k. 0) [])\<lparr>mode := HVSP\<rparr>)
        (enter_programming_mode ((power_on (\<lambda>k. HIGH) (\<lambda>k. 0) [])\<lparr>mode := HVSP\<rparr>))) =
     [DigitalWrite SDI LOW, DigitalWrite SII LOW, PinMode SDO OUTPUT, DigitalWrite SDO LOW] \<and>
   DigitalWrite SDO LOW \<notin> set (dropWhile (\<lambda>e. e \<noteq> DigitalWrite VCC HIGH)
     (emitted ((power_on (\<lambda>k. HIGH) (\<lambda>k. 0) [])\<lparr>mode := HVSP\<rparr>)
        (enter_programming_mode ((power_on (\<lambda>k. HIGH) (\<lambda>k. 0) [])\<lparr>mode := HVSP\<rparr>))))"
  by (simp add: enter_programming_mode_def prim_defs before_def power_on_def)

subsection \<open>The start button\<close>

lemma wait_high_returns:
  "pin_in s n = LOW \<Longrightarrow> \<forall>j<n. pin_in s j = HIGH \<Longrightarrow>
   wait_while p HIGH s =
     Some (s\<lparr>trace := trace s @ replicate n (DigitalRead p HIGH) @ [DigitalRead p LOW],
             pin_in := (\<lambda>k. pin_in s (k + Suc n))\<rparr>)"
  using wait_while_returns [of s n HIGH p] polls_last [of n "pin_in s" HIGH p]
  by simp

lemma wait_button_round:
  assumes "pin_in s n = LOW" and "\<forall>j<n. pin_in s j = HIGH"
  shows "wait_button s =
     (if pin_in s (Suc n) = LOW then Some (after_press n s) else wait_button (after_press n s))"
proof -
  let ?s1 = "s\<lparr>trace := trace s @ replicate n (DigitalRead BUTTON HIGH) @ [DigitalRead BUTTON LOW],
               pin_in := (\<lambda>k. pin_in s (k + Suc n))\<rparr>"
  have w: "wait_while BUTTON HIGH s = Some ?s1"
    using assms by (rule wait_high_returns)
  have r: "fst (digitalRead BUTTON (delay 100 ?s1)) = pin_in s (Suc n)"
    by (simp add: digitalRead_def delay_def)
  have s2: "snd (digitalRead BUTTON (delay 100 ?s1)) = after_press n s"
    by (simp add: digitalRead_def delay_def after_press_def emit_def)
  show ?thesis
    by (subst wait_button.simps) (simp only: w bind.bind_lunit r s2)
qed

lemma wait_button_confirmed:
  assumes "wait_button s = Some s'"
  shows "\<exists>pre. trace s' = trace s @ pre @ [DigitalRead BUTTON LOW, Delay 100, DigitalRead BUTTON LOW]"
proof (rule wait_button.raw_induct [where P = "\<lambda>s s'. \<exists>pre. trace s' =
    trace s @ pre @ [DigitalRead BUTTON LOW, Delay 100, DigitalRead BUTTON LOW]", OF _ assms])
  fix w :: "world \<Rightarrow> world option" and s s'
  assume IH: "\<And>x y. w x = Some y \<Longrightarrow> \<exists>pre. trace y =
      trace x @ pre @ [DigitalRead BUTTON LOW, Delay 100, DigitalRead BUTTON LOW]"
    and eq: "wait_while BUTTON HIGH s \<bind>
      (\<lambda>s. if fst (digitalRead BUTTON (delay 100 s)) = LOW
           then Some (snd (digitalRead BUTTON (delay 100 s)))
           else w (snd (digitalRead BUTTON (delay 100 s)))) = Some s'"
  from eq obtain s1 where s1: "wait_while BUTTON HIGH s = Some s1"
    and rest: "(if fst (digitalRead BUTTON (delay 100 s1)) = LOW
           then Some (snd (digitalRead BUTTON (delay 100 s1)))
           else w (snd (digitalRead BUTTON (delay 100 s1)))) = Some s'"
    by (auto simp: bind_eq_Some_conv)
  from s1 obtain n where n: "pin_in s n \<noteq> HIGH" "\<forall>j<n. pin_in s j = HIGH"
    and s1_eq: "s1 = s\<lparr>trace := trace s @ polls BUTTON (pin_in s) (Suc n),
                 pin_in := (\<lambda>k. pin_in s (k + Suc n))\<rparr>"
    by (rule wait_while_SomeD)
  have tr1: "trace s1 = trace s @ replicate n (DigitalRead BUTTON HIGH) @ [DigitalRead BUTTON LOW]"
    using n polls_last [of n "pin_in s" HIGH BUTTON] by (simp add: s1_eq)
  let ?s2 = "snd (digitalRead BUTTON (delay 100 s1))"
  have tr2: "trace ?s2 = trace s1 @ [Delay 100, DigitalRead BUTTON (fst (digitalRead BUTTON (delay 100 s1)))]"
    by (simp add: digitalRead_def delay_def)
  show "\<exists>pre. trace s' = trace s @ pre @ [DigitalRead BUTTON LOW, Delay 100, DigitalRead BUTTON LOW]"
  proof (cases "fst (digitalRead BUTTON (delay 100 s1)) = LOW")
    case True
    with rest have "s' = ?s2" by simp
    with tr2 tr1 True show ?thesis
      by (intro exI [of _ "replicate n (DigitalRead BUTTON HIGH)"]) simp
  next
    case False
    with rest have "w ?s2 = Some s'" by simp
    from IH [OF this] obtain pre where
      "trace s' = trace ?s2 @ pre @ [DigitalRead BUTTON LOW, Delay 100, DigitalRead BUTTON LOW]"
      by blast
    then show ?thesis
      unfolding tr2 tr1 by (metis append.assoc)
  qed
qed

lemma wait_button_single_press:
  assumes "pin_in s n = LOW" and "\<forall>j. j \<noteq> n \<longrightarrow> pin_in s j = HIGH"
  shows "wait_button s = None"
proof -
  have "wait_button s = wait_button (after_press n s)"
    using wait_button_round [of s n] assms by simp
  also have "wait_while BUTTON HIGH (after_press n s) = None"
    using assms(2) by (intro wait_while_diverges) (simp add: after_press_def)
  then have "wait_button (after_press n s) = None"
    by (subst wait_button.simps) simp
  finally show ?thesis .
qed

text \<open>
  Claim C9. Let poll \<open>n + 1\<close> of the button be the first to read pressed (\<open>LOW\<close>). When the
  confirming read 100 ms later reads released, the code is back at the wait for the button,
  having emitted nothing but the polls and the delay; when it reads pressed, the wait is
  over. Whenever the wait is over, its last three events are a read of pressed, the delay
  of 100 ms and a second read of pressed. A button pressed at one poll only never starts
  a run: \<^verbatim>\<open>loop\<close> does not get past the wait.
\<close>

theorem start_button_debounce:
  "(pin_in s n = LOW \<and> (\<forall>j<n. pin_in s j = HIGH) \<longrightarrow>
      wait_button s =
        (if pin_in s (Suc n) = LOW then Some (after_press n s)
         else wait_button (after_press n s))) \<and>
   (wait_button s = Some s' \<longrightarrow>
      (\<exists>pre. emitted s s' =
         pre @ [DigitalRead BUTTON LOW, Delay 100, DigitalRead BUTTON LOW])) \<and>
   (pin_in s n = LOW \<and> (\<forall>j. j \<noteq> n \<longrightarrow> pin_in s j = HIGH) \<longrightarrow>
      wait_button s = None \<and> loop burn_efuse s = None)"
proof (intro conjI impI)
  assume "pin_in s n = LOW \<and> (\<forall>j<n. pin_in s j = HIGH)"
  then show "wait_button s =
        (if pin_in s (Suc n) = LOW then Some (after_press n s)
         else wait_button (after_press n s))"
    using wait_button_round [of s n] by blast
next
  assume "wait_button s = Some s'"
  from wait_button_confirmed [OF this]
  show "\<exists>pre. emitted s s' = pre @ [DigitalRead BUTTON LOW, Delay 100, DigitalRead BUTTON LOW]"
    by (auto simp: emitted_def)
next
  assume once: "pin_in s n = LOW \<and> (\<forall>j. j \<noteq> n \<longrightarrow> pin_in s j = HIGH)"
  then show "wait_button s = None"
    using wait_button_single_press [of s n] by blast
  from once have "wait_button (set_PORTD 0x00 (set_DDRD 0x03 (Serial_end
      (Serial_println ''Insert target AVR and press button.'' s)))) = None"
    by (intro wait_button_single_press [of _ n]) (simp_all add: prim_defs)
  then show "loop burn_efuse s = None"
    by (simp add: loop_def Let_def)
qed

theorem start_button_debounce_witness:
  "pin_in (power_on (\<lambda>k. if k = 1 then LOW else HIGH) (\<lambda>k. 0) []) 1 = LOW \<and>
   pin_in (power_on (\<lambda>k. if k = 1 then LOW else HIGH) (\<lambda>k. 0) []) 2 = HIGH \<and>
   wait_button (power_on (\<lambda>k. if k = 1 then LOW else HIGH) (\<lambda>k. 0) []) = None \<and>
   loop False (power_on (\<lambda>k. if k = 1 then LOW else HIGH) (\<lambda>k. 0) []) = None \<and>
   pin_in (power_on (\<lambda>k. if k = 0 then HIGH else LOW) (\<lambda>k. 0) []) 1 = LOW \<and>
   pin_in (power_on (\<lambda>k. if k = 0 then HIGH else LOW) (\<lambda>k. 0) []) 2 = LOW \<and>
   map_option trace (wait_button (power_on (\<lambda>k. if k = 0 then HIGH else LOW) (\<lambda>k. 0) [])) =
     Some [DigitalRead BUTTON HIGH, DigitalRead BUTTON LOW, Delay 100, DigitalRead BUTTON LOW]"
proof -
  let ?s1 = "power_on (\<lambda>k. if k = 1 then LOW else HIGH) (\<lambda>k. 0) []"
  let ?s2 = "power_on (\<lambda>k. if k = 0 then HIGH else LOW) (\<lambda>k. 0) []"
  have h1: "pin_in ?s1 1 = LOW \<and> (\<forall>j. j \<noteq> 1 \<longrightarrow> pin_in ?s1 j = HIGH)"
    by (simp add: power_on_def)
  have never: "wait_button ?s1 = None \<and> loop False ?s1 = None"
    using start_button_debounce [where s = ?s1 and n = 1 and burn_efuse = False] h1 by blast
  have h2: "pin_in ?s2 1 = LOW \<and> (\<forall>j<1. pin_in ?s2 j = HIGH)"
    by (simp add: power_on_def)
  have "wait_button ?s2 =
      (if pin_in ?s2 (Suc 1) = LOW then Some (after_press 1 ?s2)
       else wait_button (after_press 1 ?s2))"
    using start_button_debounce [where s = ?s2 and n = 1] h2 by blast
  then have "wait_button ?s2 = Some (after_press 1 ?s2)"
    by (simp add: power_on_def)
  with never show ?thesis
    by (simp add: power_on_def after_press_def)
qed

subsection \<open>The prompt for a fuse value\<close>

lemma fuse_ask_sync_done: "fuse_ask_sync 0x78 s = Some s"
  by (subst fuse_ask_sync.simps) simp

lemma fuse_ask_sync_found:
  "c \<noteq> 0x78 \<Longrightarrow> 0x78 \<notin> set pre \<Longrightarrow> serial_in s = pre @ 0x78 # rest \<Longrightarrow>
   fuse_ask_sync c s = Some (s\<lparr>trace := trace s @ map SerialRead (pre @ [0x78]), serial_in := rest\<rparr>)"
proof (induction pre arbitrary: c s)
  case Nil
  then show ?case
    by (subst fuse_ask_sync.simps) (simp add: Serial_read_wait_def fuse_ask_sync_done)
next
  case (Cons a pre)
  let ?s1 = "s\<lparr>trace := trace s @ [SerialRead a], serial_in := pre @ 0x78 # rest\<rparr>"
  have a: "a \<noteq> 0x78" and pre: "0x78 \<notin> set pre"
    using Cons.prems(2) by auto
  have "fuse_ask_sync c s = fuse_ask_sync a ?s1"
    using Cons.prems(1,3) by (subst fuse_ask_sync.simps) (simp add: Serial_read_wait_def)
  also have "\<dots> = Some (?s1\<lparr>trace := trace ?s1 @ map SerialRead (pre @ [0x78]), serial_in := rest\<rparr>)"
    using a pre by (rule Cons.IH) simp
  finally show ?case
    by simp
qed

lemma fuse_ask_sync_starved:
  "c \<noteq> 0x78 \<Longrightarrow> 0x78 \<notin> set (serial_in s) \<Longrightarrow> fuse_ask_sync c s = None"
proof (induction "serial_in s" arbitrary: c s)
  case Nil
  then show ?case
    by (subst fuse_ask_sync.simps) (simp add: Serial_read_wait_def)
next
  case (Cons a cs)
  let ?s1 = "s\<lparr>trace := trace s @ [SerialRead a], serial_in := cs\<rparr>"
  have a: "a \<noteq> 0x78" and cs: "0x78 \<notin> set cs"
    using Cons.prems(2) Cons.hyps(2) [symmetric] by auto
  have "fuse_ask_sync c s = fuse_ask_sync a ?s1"
    using Cons.prems(1) Cons.hyps(2) [symmetric]
    by (subst fuse_ask_sync.simps) (simp add: Serial_read_wait_def)
  also have "\<dots> = None"
    using a cs by (intro Cons.hyps(1)) simp_all
  finally show ?case .
qed

lemma fuse_ask_returns:
  assumes "0x78 \<notin> set pre" and "serial_in s = pre @ [0x78, c1, c2] @ rest"
  shows "fuse_ask s =
     Some (word_of_int (hex2dec c2 + hex2dec c1 * 16),
           after_fuse_ask (pre @ [0x78, c1, c2]) (word_of_int (hex2dec c2 + hex2dec c1 * 16)) rest s)"
proof -
  have "fuse_ask_sync 0 s =
      Some (s\<lparr>trace := trace s @ map SerialRead (pre @ [0x78]), serial_in := c1 # c2 # rest\<rparr>)"
    using assms by (intro fuse_ask_sync_found) simp_all
  then show ?thesis
    by (simp add: fuse_ask_def Serial_read_wait_def Let_def Serial_println_HEX_def
        Serial_println_def emit_def after_fuse_ask_def)
qed

lemma fuse_ask_starved:
  assumes "0x78 \<notin> set (serial_in s) \<or>
     (\<exists>pre rest. 0x78 \<notin> set pre \<and> serial_in s = pre @ 0x78 # rest \<and> length rest < 2)"
  shows "fuse_ask s = None"
  using assms
proof
  assume "0x78 \<notin> set (serial_in s)"
  then have "fuse_ask_sync 0 s = None"
    by (intro fuse_ask_sync_starved) simp_all
  then show ?thesis
    by (simp add: fuse_ask_def)
next
  assume "\<exists>pre rest. 0x78 \<notin> set pre \<and> serial_in s = pre @ 0x78 # rest \<and> length rest < 2"
  then obtain pre rest where pre: "0x78 \<notin> set pre" and s: "serial_in s = pre @ 0x78 # rest"
    and short: "length rest < 2"
    by blast
  have sync: "fuse_ask_sync 0 s =
      Some (s\<lparr>trace := trace s @ map SerialRead (pre @ [0x78]), serial_in := rest\<rparr>)"
    using pre s by (intro fuse_ask_sync_found) simp_all
  from short consider "rest = []" | c where "rest = [c]"
    by (cases rest; cases "tl rest") auto
  then show ?thesis
    by cases (simp_all add: fuse_ask_def sync Serial_read_wait_def)
qed

lemma hex_digit_cases:
  "0x30 \<le> c \<Longrightarrow> c \<le> 0x39 \<Longrightarrow> c \<in> set (map of_char ''0123456789'')" for c :: byte
  by (simp add: word_unat_eq_iff word_le_nat_alt) arith

lemma hex_letter_cases:
  "0x41 \<le> c \<Longrightarrow> c \<le> 0x46 \<Longrightarrow> c \<in> set (map of_char ''ABCDEF'')" for c :: byte
  by (simp add: word_unat_eq_iff word_le_nat_alt) arith

lemma hex2dec_other: "c \<notin> set (map of_char ''0123456789ABCDEF'') \<Longrightarrow> hex2dec c = uint c"
  using hex_digit_cases [of c] hex_letter_cases [of c] by (auto simp: hex2dec_def)

text \<open>
  Claim C6, as amended. When the input holds an \<^verbatim>\<open>'x'\<close> followed by two more characters
  \<open>c1\<close> and \<open>c2\<close>, \<^verbatim>\<open>fuse_ask\<close> reads up to and including the first \<^verbatim>\<open>'x'\<close> and the two
  characters after it, leaves the rest unread, and returns the low eight bits of
  \<open>16 * v c1 + v c2\<close>, where \<open>v\<close> is \<^verbatim>\<open>hex2dec\<close>: 0 to 15 for the digits and the upper-case
  letters A to F, and the character code for every other character. When the input holds
  no \<^verbatim>\<open>'x'\<close>, or fewer than two characters after the first one, \<^verbatim>\<open>fuse_ask\<close> never returns.
\<close>

theorem fuse_ask_parses:
  "(0x78 \<notin> set pre \<and> serial_in s = pre @ [0x78, c1, c2] @ rest \<longrightarrow>
      fuse_ask s =
        Some (word_of_int (16 * hex2dec c1 + hex2dec c2),
              after_fuse_ask (pre @ [0x78, c1, c2]) (word_of_int (16 * hex2dec c1 + hex2dec c2))
                rest s) \<and>
      uint (word_of_int (16 * hex2dec c1 + hex2dec c2) :: byte) =
        (16 * hex2dec c1 + hex2dec c2) mod 256) \<and>
   (0x78 \<notin> set (serial_in s) \<or>
    (\<exists>pre rest. 0x78 \<notin> set pre \<and> serial_in s = pre @ 0x78 # rest \<and> length rest < 2) \<longrightarrow>
      fuse_ask s = None) \<and>
   map hex2dec (map of_char ''0123456789ABCDEF'') =
     [0, 1, 2, 3, 4, 5, 6, 7, 8, 9, 10, 11, 12, 13, 14, 15] \<and>
   (c \<notin> set (map of_char ''0123456789ABCDEF'') \<longrightarrow> hex2dec c = uint c)"
proof (intro conjI impI)
  assume a: "0x78 \<notin> set pre \<and> serial_in s = pre @ [0x78, c1, c2] @ rest"
  have comm: "16 * hex2dec c1 + hex2dec c2 = hex2dec c2 + hex2dec c1 * 16"
    by simp
  from a show "fuse_ask s =
        Some (word_of_int (16 * hex2dec c1 + hex2dec c2),
              after_fuse_ask (pre @ [0x78, c1, c2]) (word_of_int (16 * hex2dec c1 + hex2dec c2))
                rest s)"
    unfolding comm using fuse_ask_returns [of pre s c1 c2 rest] by blast
  show "uint (word_of_int (16 * hex2dec c1 + hex2dec c2) :: byte) =
        (16 * hex2dec c1 + hex2dec c2) mod 256"
    by (simp only: uint_word_of_int take_bit_eq_mod) simp
next
  assume "0x78 \<notin> set (serial_in s) \<or>
    (\<exists>pre rest. 0x78 \<notin> set pre \<and> serial_in s = pre @ 0x78 # rest \<and> length rest < 2)"
  then show "fuse_ask s = None"
    by (rule fuse_ask_starved)
next
  show "map hex2dec (map of_char ''0123456789ABCDEF'') =
     [0, 1, 2, 3, 4, 5, 6, 7, 8, 9, 10, 11, 12, 13, 14, 15]"
    by (simp add: hex2dec_def)
next
  assume "c \<notin> set (map of_char ''0123456789ABCDEF'')"
  then show "hex2dec c = uint c"
    by (rule hex2dec_other)
qed

theorem fuse_ask_parses_witness:
  "map_option fst (fuse_ask (power_on (\<lambda>k. HIGH) (\<lambda>k. 0) (map of_char ''x3F''))) = Some 0x3F \<and>
   map_option (serial_in \<circ> snd)
     (fuse_ask (power_on (\<lambda>k. HIGH) (\<lambda>k. 0) (map of_char ''q x62x0F''))) =
     Some (map of_char ''x0F'') \<and>
   map_option fst (fuse_ask (power_on (\<lambda>k. HIGH) (\<lambda>k. 0) (map of_char ''q x62x0F''))) =
     Some 0x62 \<and>
   fuse_ask (power_on (\<lambda>k. HIGH) (\<lambda>k. 0) (map of_char ''3F'')) = None \<and>
   fuse_ask (power_on (\<lambda>k. HIGH) (\<lambda>k. 0) (map of_char ''x3'')) = None \<and>
   hex2dec (of_char CHR ''G'') = 71"
proof -
  have h1: "0x78 \<notin> set ([] :: byte list) \<and>
      serial_in (power_on (\<lambda>k. HIGH) (\<lambda>k. 0) (map of_char ''x3F'')) = [] @ [0x78, 0x33, 0x46] @ []"
    by (simp add: power_on_def)
  have h2: "0x78 \<notin> set (map of_char ''q '' :: byte list) \<and>
      serial_in (power_on (\<lambda>k. HIGH) (\<lambda>k. 0) (map of_char ''q x62x0F'')) =
        map of_char ''q '' @ [0x78, 0x36, 0x32] @ map of_char ''x0F''"
    by (simp add: power_on_def)
  have h3: "0x78 \<notin> set (serial_in (power_on (\<lambda>k. HIGH) (\<lambda>k. 0) (map of_char ''3F'')))"
    by (simp add: power_on_def)
  have h4: "\<exists>pre rest. 0x78 \<notin> set pre \<and>
      serial_in (power_on (\<lambda>k. HIGH) (\<lambda>k. 0) (map of_char ''x3'')) = pre @ 0x78 # rest \<and>
      length rest < 2"
    by (intro exI [of _ "[]"] exI [of _ "[0x33]"]) (simp add: power_on_def)
  have h5: "of_char CHR ''G'' \<notin> set (map of_char ''0123456789ABCDEF'' :: byte list)"
    by simp
  show ?thesis
    using fuse_ask_parses [where s = "power_on (\<lambda>k. HIGH) (\<lambda>k. 0) (map of_char ''x3F'')"
        and pre = "[]" and ?c1.0 = "0x33" and ?c2.0 = "0x46" and rest = "[]"] h1
      fuse_ask_parses [where s = "power_on (\<lambda>k. HIGH) (\<lambda>k. 0) (map of_char ''q x62x0F'')"
        and pre = "map of_char ''q ''" and ?c1.0 = "0x36" and ?c2.0 = "0x32"
        and rest = "map of_char ''x0F''"] h2
      fuse_ask_parses [where s = "power_on (\<lambda>k. HIGH) (\<lambda>k. 0) (map of_char ''3F'')"] h3
      fuse_ask_parses [where s = "power_on (\<lambda>k. HIGH) (\<lambda>k. 0) (map of_char ''x3'')"] h4
      fuse_ask_parses [where c = "of_char CHR ''G''"] h5
    by (simp add: hex2dec_def after_fuse_ask_def)
qed

text \<open>
  Claim C6 as stated has \<^verbatim>\<open>fuse_ask\<close> return \<open>16 * v c1 + v c2\<close> itself. For the input
  \<^verbatim>\<open>xG1\<close> that number is 1137; the byte returned is 113.
\<close>

theorem fuse_ask_counterexample:
  "map_option (uint \<circ> fst) (fuse_ask (power_on (\<lambda>k. HIGH) (\<lambda>k. 0) (map of_char ''xG1''))) =
     Some 113 \<and>
   16 * hex2dec (of_char CHR ''G'') + hex2dec (of_char CHR ''1'') = 1137"
  using fuse_ask_returns [of "[]" "power_on (\<lambda>k. HIGH) (\<lambda>k. 0) (map of_char ''xG1'')"
      "of_char CHR ''G''" "of_char CHR ''1''" "[]"]
  by (simp add: power_on_def hex2dec_def)

subsection \<open>The reports\<close>

lemma digit_char:
  "m < 10 \<Longrightarrow> char_of (m + 48) = hex_digit m"
  "\<not> m < 10 \<Longrightarrow> m < 16 \<Longrightarrow> char_of (55 + m) = hex_digit m"
proof -
  assume "m < 10"
  then have "m = 0 \<or> m = 1 \<or> m = 2 \<or> m = 3 \<or> m = 4 \<or> m = 5 \<or> m = 6 \<or> m = 7 \<or>
      m = 8 \<or> m = 9"
    by arith
  then show "char_of (m + 48) = hex_digit m"
    by (elim disjE) (simp_all add: hex_digit_def char_of_def bit_Suc_0_iff)
next
  assume "\<not> m < 10" "m < 16"
  then have "m = 10 \<or> m = 11 \<or> m = 12 \<or> m = 13 \<or> m = 14 \<or> m = 15"
    by arith
  then show "char_of (55 + m) = hex_digit m"
    by (elim disjE) (simp_all add: hex_digit_def char_of_def bit_Suc_0_iff)
qed

lemma printNumber_one_digit: "n < 16 \<Longrightarrow> printNumber n 16 = [hex_digit n]"
  by (subst printNumber.simps) (simp add: digit_char)

lemma printNumber_HEX: "printNumber (unat v) 16 = HEX v" for v :: byte
proof (cases "unat v < 16")
  case True
  then show ?thesis
    by (simp add: HEX_def printNumber_one_digit)
next
  case False
  have "unat v < 2 ^ LENGTH(8)"
    by (rule unsigned_less)
  then have "unat v < 256"
    by simp
  then have d: "unat v div 16 < 16" and m: "unat v mod 16 < 16"
    by simp_all
  from False have nz: "unat v div 16 \<noteq> 0"
    by simp
  have "printNumber (unat v) 16 = printNumber (unat v div 16) 16 @ [hex_digit (unat v mod 16)]"
    using nz m by (subst printNumber.simps) (simp add: digit_char)
  with False d show ?thesis
    by (simp add: HEX_def printNumber_one_digit)
qed

text \<open>
  Claim C7, as amended. After the initial read the sketch prints an empty line, the line
  \<^verbatim>\<open>Existing fuse values:\<close>, the lines \<^verbatim>\<open>LFUSE: <H>\<close> and \<^verbatim>\<open>HFUSE: <H>\<close>, with
  \<^verbatim>\<open>BURN_EFUSE\<close> the line \<^verbatim>\<open>EFUSE: <H>\<close>, and a line feed. After the verification it prints
  an empty line, the lines \<^verbatim>\<open>Read LFUSE: <H>\<close> and \<^verbatim>\<open>Read HFUSE: <H>\<close>, with \<^verbatim>\<open>BURN_EFUSE\<close>
  the line \<^verbatim>\<open>Read EFUSE: <H>\<close>, the line \<^verbatim>\<open>Burn complete.\<close>, and the notice that the target
  may be removed. \<^verbatim>\<open><H>\<close> is the value in upper-case hexadecimal digits without a leading
  zero, and \<^verbatim>\<open>fuse_ask\<close> echoes the byte it parsed in the same way, on a line of its own.
\<close>

theorem fuse_reports:
  "serial_text (emitted s (report_existing burn_efuse lfuse hfuse efuse s)) =
     [NL] @ ''Existing fuse values:'' @ [CR, NL] @
     ''LFUSE: '' @ HEX lfuse @ [CR, NL] @
     ''HFUSE: '' @ HEX hfuse @ [CR, NL] @
     (if burn_efuse then ''EFUSE: '' @ HEX efuse @ [CR, NL] else []) @ [NL] \<and>
   serial_text (emitted s (report_verify burn_efuse lfuse hfuse efuse s)) =
     [NL] @ ''Read LFUSE: '' @ HEX lfuse @ [CR, NL] @
     ''Read HFUSE: '' @ HEX hfuse @ [CR, NL] @
     (if burn_efuse then ''Read EFUSE: '' @ HEX efuse @ [CR, NL] else []) @
     ''Burn complete.'' @ [CR, NL] @ [NL] @
     ''It is now safe to remove the target AVR.'' @ [CR, NL] @ [NL] \<and>
   (0x78 \<notin> set pre \<and> serial_in s = pre @ [0x78, c1, c2] @ rest \<longrightarrow>
      (\<exists>v s'. fuse_ask s = Some (v, s') \<and> serial_text (emitted s s') = HEX v @ [CR, NL]))"
proof (intro conjI impI)
  show "serial_text (emitted s (report_existing burn_efuse lfuse hfuse efuse s)) =
     [NL] @ ''Existing fuse values:'' @ [CR, NL] @
     ''LFUSE: '' @ HEX lfuse @ [CR, NL] @
     ''HFUSE: '' @ HEX hfuse @ [CR, NL] @
     (if burn_efuse then ''EFUSE: '' @ HEX efuse @ [CR, NL] else []) @ [NL]"
    by (simp add: report_existing_def prim_defs printNumber_HEX)
  show "serial_text (emitted s (report_verify burn_efuse lfuse hfuse efuse s)) =
     [NL] @ ''Read LFUSE: '' @ HEX lfuse @ [CR, NL] @
     ''Read HFUSE: '' @ HEX hfuse @ [CR, NL] @
     (if burn_efuse then ''Read EFUSE: '' @ HEX efuse @ [CR, NL] else []) @
     ''Burn complete.'' @ [CR, NL] @ [NL] @
     ''It is now safe to remove the target AVR.'' @ [CR, NL] @ [NL]"
    by (simp add: report_verify_def prim_defs printNumber_HEX)
next
  assume "0x78 \<notin> set pre \<and> serial_in s = pre @ [0x78, c1, c2] @ rest"
  then have "fuse_ask s =
     Some (word_of_int (hex2dec c2 + hex2dec c1 * 16),
           after_fuse_ask (pre @ [0x78, c1, c2]) (word_of_int (hex2dec c2 + hex2dec c1 * 16)) rest s)"
    using fuse_ask_returns [of pre s c1 c2 rest] by blast
  moreover have "serial_text (map SerialRead cs @ es) = serial_text es" for cs es
    by (induction cs) simp_all
  ultimately show "\<exists>v s'. fuse_ask s = Some (v, s') \<and> serial_text (emitted s s') = HEX v @ [CR, NL]"
    by (simp add: after_fuse_ask_def emitted_def printNumber_HEX del: map_append)
qed

theorem fuse_reports_witness:
  "serial_text (emitted (power_on (\<lambda>k. HIGH) (\<lambda>k. 0) [])
      (report_existing True 0x62 0xDF 0x09 (power_on (\<lambda>k. HIGH) (\<lambda>k. 0) []))) =
     [NL] @ ''Existing fuse values:'' @ [CR, NL] @ ''LFUSE: 62'' @ [CR, NL] @
     ''HFUSE: DF'' @ [CR, NL] @ ''EFUSE: 9'' @ [CR, NL] @ [NL] \<and>
   map_option (\<lambda>(v, s'). serial_text (trace s'))
     (fuse_ask (power_on (\<lambda>k. HIGH) (\<lambda>k. 0) (map of_char ''x05''))) =
     Some (''5'' @ [CR, NL])"
proof -
  let ?s = "power_on (\<lambda>k. HIGH) (\<lambda>k. 0) (map of_char ''x05'')"
  have h: "0x78 \<notin> set ([] :: byte list) \<and> serial_in ?s = [] @ [0x78, 0x30, 0x35] @ []"
    by (simp add: power_on_def)
  have "\<exists>v s'. fuse_ask ?s = Some (v, s') \<and> serial_text (emitted ?s s') = HEX v @ [CR, NL]"
    using fuse_reports [where s = ?s and pre = "[]" and ?c1.0 = "0x30" and ?c2.0 = "0x35"
        and rest = "[]"] h
    by blast
  moreover have "map_option fst (fuse_ask ?s) = Some 5"
    using fuse_ask_returns [of "[]" ?s "0x30" "0x35" "[]"] h by (simp add: hex2dec_def)
  ultimately have echo: "map_option (\<lambda>(v, s'). serial_text (trace s')) (fuse_ask ?s) =
      Some (''5'' @ [CR, NL])"
    by (auto simp: emitted_def power_on_def HEX_def hex_digit_def)
  show ?thesis
    using echo fuse_reports [where s = "power_on (\<lambda>k. HIGH) (\<lambda>k. 0) []" and burn_efuse = True
        and lfuse = "0x62" and hfuse = "0xDF" and efuse = "0x09"]
    by (simp add: HEX_def hex_digit_def)
qed

text \<open>
  Claim C7 as stated fails in three ways, shown for the fuse values 0x62 and 0x0F: the
  lines after the verification begin with \<^verbatim>\<open>Read\<close>, the line \<^verbatim>\<open>Burn complete.\<close> does not
  follow the report of the initial read, and a value below 0x10 is printed as one digit.
\<close>

theorem fuse_reports_counterexample:
  "lines_of (serial_text (emitted (power_on (\<lambda>k. HIGH) (\<lambda>k. 0) [])
      (report_verify False 0x62 0x0F 0 (power_on (\<lambda>k. HIGH) (\<lambda>k. 0) [])))) =
     [[], ''Read LFUSE: 62'', ''Read HFUSE: F'', ''Burn complete.'', [],
      ''It is now safe to remove the target AVR.'', [], []] \<and>
   lines_of (serial_text (emitted (power_on (\<lambda>k. HIGH) (\<lambda>k. 0) [])
      (report_existing False 0x62 0x0F 0 (power_on (\<lambda>k. HIGH) (\<lambda>k. 0) [])))) =
     [[], ''Existing fuse values:'', ''LFUSE: 62'', ''HFUSE: F'', [], []] \<and>
   ''LFUSE: 62'' \<notin> set (lines_of (serial_text (emitted (power_on (\<lambda>k. HIGH) (\<lambda>k. 0) [])
      (report_verify False 0x62 0x0F 0 (power_on (\<lambda>k. HIGH) (\<lambda>k. 0) []))))) \<and>
   ''HFUSE: 0F'' \<notin> set (lines_of (serial_text (emitted (power_on (\<lambda>k. HIGH) (\<lambda>k. 0) [])
      (report_existing False 0x62 0x0F 0 (power_on (\<lambda>k. HIGH) (\<lambda>k. 0) []))))) \<and>
   ''Burn complete.'' \<notin> set (lines_of (serial_text (emitted (power_on (\<lambda>k. HIGH) (\<lambda>k. 0) [])
      (report_existing False 0x62 0x0F 0 (power_on (\<lambda>k. HIGH) (\<lambda>k. 0) [])))))"
  by (simp add: report_verify_def report_existing_def prim_defs printNumber.simps char_of_def
      bit_Suc_0_iff)

subsection \<open>The order of the burns\<close>

lemma fuse_burn_SomeD:
  assumes "fuse_burn f sel s = Some s'"
  obtains n where "trace s' = trace s @ fuse_burn_events (mode s) (BS2 s) f sel n"
    and "mode s' = mode s" and "BS2 s' = BS2 s" and "PAGEL s' = PAGEL s"
proof -
  from assms obtain s1 where w: "wait_while RDY LOW (fuse_burn_strobe f sel s) = Some s1"
    and s': "s' = digitalWrite (BS2 s1) LOW (digitalWrite BS1 LOW s1)"
    by (auto simp: fuse_burn_def split: option.splits)
  from w obtain n where "s1 = after_polls RDY n (fuse_burn_strobe f sel s)"
    by (rule wait_low_SomeD)
  then show thesis
    by (intro that [of n])
       (simp_all add: s' digitalWrite_def fuse_burn_strobe_trace fuse_burn_events_def)
qed

lemma burn_strobes_reads [simp]:
  "burn_strobes bs2 b1 b2 port dat (replicate n (DigitalRead p l) @ rest) =
     burn_strobes bs2 b1 b2 port dat rest"
  by (induction n) simp_all

lemma burn_strobes_fuse_burn:
  assumes "(m = TINY2313 \<and> bs2 = XA1) \<or> (m \<noteq> TINY2313 \<and> bs2 = D 9)"
  shows "burn_strobes bs2 b1 b2 port dat (fuse_burn_events m bs2 f sel n @ rest) =
     (case sel of HFUSE_SEL \<Rightarrow> (HIGH, LOW, f) | LFUSE_SEL \<Rightarrow> (LOW, LOW, f)
      | EFUSE_SEL \<Rightarrow> (LOW, HIGH, f)) # burn_strobes bs2 LOW LOW 0 f rest"
  using assms
  by (auto simp: fuse_burn_events_def fuse_burn_strobe_events_def send_cmd_events_def
      split: fusesel.split)

lemma HVSP_writes_then_wait:
  assumes "wait_while SDO LOW (HVSP_write d4 i4 (HVSP_write d3 i3 (HVSP_write d2 i2
             (HVSP_write d1 i1 s)))) = Some s'"
  obtains n where "trace s' = trace s @ HVSP_write_events d1 i1 @ HVSP_write_events d2 i2 @
      HVSP_write_events d3 i3 @ HVSP_write_events d4 i4 @
      replicate n (DigitalRead SDO LOW) @ [DigitalRead SDO HIGH]"
    and "mode s' = mode s"
proof -
  from assms obtain n where "s' = after_polls SDO n (HVSP_write d4 i4 (HVSP_write d3 i3
      (HVSP_write d2 i2 (HVSP_write d1 i1 s))))"
    by (rule wait_low_SomeD)
  then show thesis
    by (intro that [of n]) (simp_all add: HVSP_write_trace)
qed

lemma clocked_reads [simp]:
  "clocked c0 d0 i0 (replicate n (DigitalRead p l) @ rest) = clocked c0 d0 i0 rest"
  by (induction n) simp_all

lemma clocked_HVSP_burn:
  "clocked c0 d0 i0 (HVSP_write_events d1 i1 @ HVSP_write_events d2 i2 @
      HVSP_write_events d3 i3 @ HVSP_write_events d4 i4 @
      replicate n (DigitalRead SDO LOW) @ DigitalRead SDO HIGH # rest) =
   SerialFrame d1 i1 @ SerialFrame d2 i2 @ SerialFrame d3 i3 @ SerialFrame d4 i4 @
   clocked LOW LOW LOW rest"
  by (simp add: clocked_HVSP_write_events)

lemma HVPP_burn_order:
  assumes a: "pins_ok s \<and> mode s \<noteq> HVSP \<and> burn_fuses burn_efuse lfuse hfuse efuse s = Some s'"
  shows "burn_strobes (BS2 s) b1 b2 port dat (emitted s s') =
        [(HIGH, LOW, hfuse), (LOW, LOW, lfuse)] @
        (if burn_efuse then [(LOW, HIGH, efuse)] else [])"
proof -
  from a have ok: "(mode s = TINY2313 \<and> BS2 s = XA1) \<or> (mode s \<noteq> TINY2313 \<and> BS2 s = D 9)"
    by (auto simp: pins_ok_def split: if_splits)
  from a obtain s1 s2 where s1: "fuse_burn hfuse HFUSE_SEL s = Some s1"
    and s2: "fuse_burn lfuse LFUSE_SEL s1 = Some s2"
    and s3: "(if burn_efuse then fuse_burn efuse EFUSE_SEL s2 else Some s2) = Some s'"
    by (auto simp: burn_fuses_def HVPP_burn_fuses_def bind_eq_Some_conv)
  from s1 obtain n1 where t1: "trace s1 = trace s @ fuse_burn_events (mode s) (BS2 s) hfuse HFUSE_SEL n1"
    and f1: "mode s1 = mode s" "BS2 s1 = BS2 s"
    by (rule fuse_burn_SomeD)
  from s2 obtain n2 where t2: "trace s2 = trace s1 @ fuse_burn_events (mode s) (BS2 s) lfuse LFUSE_SEL n2"
    and f2: "mode s2 = mode s" "BS2 s2 = BS2 s"
    by (rule fuse_burn_SomeD) (simp_all add: f1)
  show ?thesis
  proof (cases burn_efuse)
    case False
    with s3 have "s' = s2" by simp
    then have "emitted s s' = fuse_burn_events (mode s) (BS2 s) hfuse HFUSE_SEL n1 @
        fuse_burn_events (mode s) (BS2 s) lfuse LFUSE_SEL n2 @ []"
      by (simp add: t1 t2)
    with False show ?thesis
      by (simp only: burn_strobes_fuse_burn [OF ok]) simp
  next
    case True
    with s3 have "fuse_burn efuse EFUSE_SEL s2 = Some s'" by simp
    then obtain n3 where "trace s' = trace s2 @ fuse_burn_events (mode s) (BS2 s) efuse EFUSE_SEL n3"
      by (rule fuse_burn_SomeD) (simp add: f2)
    then have "emitted s s' = fuse_burn_events (mode s) (BS2 s) hfuse HFUSE_SEL n1 @
        fuse_burn_events (mode s) (BS2 s) lfuse LFUSE_SEL n2 @
        fuse_burn_events (mode s) (BS2 s) efuse EFUSE_SEL n3 @ []"
      by (simp add: t1 t2)
    with True show ?thesis
      by (simp only: burn_strobes_fuse_burn [OF ok]) simp
  qed
qed

lemma HVSP_burn_order:
  assumes a: "mode s = HVSP \<and> burn_fuses burn_efuse lfuse hfuse efuse s = Some s'"
  shows "clocked sci sdi sii (emitted s s') =
        SerialFrame HVSP_WRITE_LFUSE_DATA HVSP_WRITE_LFUSE_INSTR1 @
        SerialFrame lfuse HVSP_WRITE_LFUSE_INSTR2 @
        SerialFrame 0x00 HVSP_WRITE_LFUSE_INSTR3 @
        SerialFrame 0x00 HVSP_WRITE_LFUSE_INSTR4 @
        SerialFrame HVSP_WRITE_HFUSE_DATA HVSP_WRITE_HFUSE_INSTR1 @
        SerialFrame hfuse HVSP_WRITE_HFUSE_INSTR2 @
        SerialFrame 0x00 HVSP_WRITE_HFUSE_INSTR3 @
        SerialFrame 0x00 HVSP_WRITE_HFUSE_INSTR4 @
        (if burn_efuse then
           SerialFrame HVSP_WRITE_EFUSE_DATA HVSP_WRITE_EFUSE_INSTR1 @
           SerialFrame efuse HVSP_WRITE_EFUSE_INSTR2 @
           SerialFrame 0x00 HVSP_WRITE_EFUSE_INSTR3 @
           SerialFrame 0x00 HVSP_WRITE_EFUSE_INSTR4
         else [])"
proof -
  from a obtain s1 s2 where s1: "HVSP_burn_lfuse lfuse s = Some s1"
    and s2: "HVSP_burn_hfuse hfuse s1 = Some s2"
    and s3: "(if burn_efuse then HVSP_burn_efuse efuse s2 else Some s2) = Some s'"
    by (auto simp: burn_fuses_def HVSP_burn_fuses_def bind_eq_Some_conv)
  from s1 obtain n1 where t1: "trace s1 = trace s @
      HVSP_write_events HVSP_WRITE_LFUSE_DATA HVSP_WRITE_LFUSE_INSTR1 @
      HVSP_write_events lfuse HVSP_WRITE_LFUSE_INSTR2 @
      HVSP_write_events 0x00 HVSP_WRITE_LFUSE_INSTR3 @
      HVSP_write_events 0x00 HVSP_WRITE_LFUSE_INSTR4 @
      replicate n1 (DigitalRead SDO LOW) @ [DigitalRead SDO HIGH]"
    unfolding HVSP_burn_lfuse_def Let_def by (rule HVSP_writes_then_wait)
  from s2 obtain n2 where t2: "trace s2 = trace s1 @
      HVSP_write_events HVSP_WRITE_HFUSE_DATA HVSP_WRITE_HFUSE_INSTR1 @
      HVSP_write_events hfuse HVSP_WRITE_HFUSE_INSTR2 @
      HVSP_write_events 0x00 HVSP_WRITE_HFUSE_INSTR3 @
      HVSP_write_events 0x00 HVSP_WRITE_HFUSE_INSTR4 @
      replicate n2 (DigitalRead SDO LOW) @ [DigitalRead SDO HIGH]"
    unfolding HVSP_burn_hfuse_def Let_def by (rule HVSP_writes_then_wait)
  show ?thesis
  proof (cases burn_efuse)
    case False
    with s3 have "s' = s2" by simp
    then have "emitted s s' =
        HVSP_write_events HVSP_WRITE_LFUSE_DATA HVSP_WRITE_LFUSE_INSTR1 @
        HVSP_write_events lfuse HVSP_WRITE_LFUSE_INSTR2 @
        HVSP_write_events 0x00 HVSP_WRITE_LFUSE_INSTR3 @
        HVSP_write_events 0x00 HVSP_WRITE_LFUSE_INSTR4 @
        replicate n1 (DigitalRead SDO LOW) @ DigitalRead SDO HIGH #
        HVSP_write_events HVSP_WRITE_HFUSE_DATA HVSP_WRITE_HFUSE_INSTR1 @
        HVSP_write_events hfuse HVSP_WRITE_HFUSE_INSTR2 @
        HVSP_write_events 0x00 HVSP_WRITE_HFUSE_INSTR3 @
        HVSP_write_events 0x00 HVSP_WRITE_HFUSE_INSTR4 @
        replicate n2 (DigitalRead SDO LOW) @ DigitalRead SDO HIGH # []"
      by (simp add: t1 t2)
    with False show ?thesis
      by (simp only: clocked_HVSP_burn) simp
  next
    case True
    with s3 have "HVSP_burn_efuse efuse s2 = Some s'" by simp
    then obtain n3 where "trace s' = trace s2 @
        HVSP_write_events HVSP_WRITE_EFUSE_DATA HVSP_WRITE_EFUSE_INSTR1 @
        HVSP_write_events efuse HVSP_WRITE_EFUSE_INSTR2 @
        HVSP_write_events 0x00 HVSP_WRITE_EFUSE_INSTR3 @
        HVSP_write_events 0x00 HVSP_WRITE_EFUSE_INSTR4 @
        replicate n3 (DigitalRead SDO LOW) @ [DigitalRead SDO HIGH]"
      unfolding HVSP_burn_efuse_def Let_def by (rule HVSP_writes_then_wait)
    then have "emitted s s' =
        HVSP_write_events HVSP_WRITE_LFUSE_DATA HVSP_WRITE_LFUSE_INSTR1 @
        HVSP_write_events lfuse HVSP_WRITE_LFUSE_INSTR2 @
        HVSP_write_events 0x00 HVSP_WRITE_LFUSE_INSTR3 @
        HVSP_write_events 0x00 HVSP_WRITE_LFUSE_INSTR4 @
        replicate n1 (DigitalRead SDO LOW) @ DigitalRead SDO HIGH #
        HVSP_write_events HVSP_WRITE_HFUSE_DATA HVSP_WRITE_HFUSE_INSTR1 @
        HVSP_write_events hfuse HVSP_WRITE_HFUSE_INSTR2 @
        HVSP_write_events 0x00 HVSP_WRITE_HFUSE_INSTR3 @
        HVSP_write_events 0x00 HVSP_WRITE_HFUSE_INSTR4 @
        replicate n2 (DigitalRead SDO LOW) @ DigitalRead SDO HIGH #
        HVSP_write_events HVSP_WRITE_EFUSE_DATA HVSP_WRITE_EFUSE_INSTR1 @
        HVSP_write_events efuse HVSP_WRITE_EFUSE_INSTR2 @
        HVSP_write_events 0x00 HVSP_WRITE_EFUSE_INSTR3 @
        HVSP_write_events 0x00 HVSP_WRITE_EFUSE_INSTR4 @
        replicate n3 (DigitalRead SDO LOW) @ DigitalRead SDO HIGH # []"
      by (simp add: t1 t2)
    with True show ?thesis
      by (simp only: clocked_HVSP_burn) simp
  qed
qed

text \<open>
  Claim C2, as amended. In the two parallel modes the burn pulses \<^verbatim>\<open>WR\<close> first with the
  select lines of the high fuse and the byte \<^verbatim>\<open>hfuse\<close> latched, then with those of the low
  fuse and \<^verbatim>\<open>lfuse\<close>, and with \<^verbatim>\<open>BURN_EFUSE\<close> last with those of the extended fuse and
  \<^verbatim>\<open>efuse\<close>. In the serial mode the order is another: the four frames that write the low
  fuse are clocked first, then the four that write the high fuse, and with \<^verbatim>\<open>BURN_EFUSE\<close>
  last the four that write the extended fuse.
\<close>

theorem burn_order:
  "(pins_ok s \<and> mode s \<noteq> HVSP \<and> burn_fuses burn_efuse lfuse hfuse efuse s = Some s' \<longrightarrow>
      burn_strobes (BS2 s) b1 b2 port dat (emitted s s') =
        [(HIGH, LOW, hfuse), (LOW, LOW, lfuse)] @
        (if burn_efuse then [(LOW, HIGH, efuse)] else [])) \<and>
   (mode s = HVSP \<and> burn_fuses burn_efuse lfuse hfuse efuse s = Some s' \<longrightarrow>
      clocked sci sdi sii (emitted s s') =
        SerialFrame HVSP_WRITE_LFUSE_DATA HVSP_WRITE_LFUSE_INSTR1 @
        SerialFrame lfuse HVSP_WRITE_LFUSE_INSTR2 @
        SerialFrame 0x00 HVSP_WRITE_LFUSE_INSTR3 @
        SerialFrame 0x00 HVSP_WRITE_LFUSE_INSTR4 @
        SerialFrame HVSP_WRITE_HFUSE_DATA HVSP_WRITE_HFUSE_INSTR1 @
        SerialFrame hfuse HVSP_WRITE_HFUSE_INSTR2 @
        SerialFrame 0x00 HVSP_WRITE_HFUSE_INSTR3 @
        SerialFrame 0x00 HVSP_WRITE_HFUSE_INSTR4 @
        (if burn_efuse then
           SerialFrame HVSP_WRITE_EFUSE_DATA HVSP_WRITE_EFUSE_INSTR1 @
           SerialFrame efuse HVSP_WRITE_EFUSE_INSTR2 @
           SerialFrame 0x00 HVSP_WRITE_EFUSE_INSTR3 @
           SerialFrame 0x00 HVSP_WRITE_EFUSE_INSTR4
         else []))"
  using HVPP_burn_order [of s burn_efuse lfuse hfuse efuse s' b1 b2 port dat]
    HVSP_burn_order [of s burn_efuse lfuse hfuse efuse s' sci sdi sii]
  by blast

theorem burn_order_witness:
  "pins_ok (power_on (\<lambda>k. HIGH) (\<lambda>k. 0) []) \<and>
   mode (power_on (\<lambda>k. HIGH) (\<lambda>k. 0) []) \<noteq> HVSP \<and>
   burn_fuses True 0x62 0xDF 0xF9 (power_on (\<lambda>k. HIGH) (\<lambda>k. 0) []) \<noteq> None \<and>
   burn_strobes (D 9) LOW LOW 0 0
     (emitted (power_on (\<lambda>k. HIGH) (\<lambda>k. 0) [])
        (the (burn_fuses True 0x62 0xDF 0xF9 (power_on (\<lambda>k. HIGH) (\<lambda>k. 0) [])))) =
     [(HIGH, LOW, 0xDF), (LOW, LOW, 0x62), (LOW, HIGH, 0xF9)] \<and>
   mode ((power_on (\<lambda>k. HIGH) (\<lambda>k. 0) [])\<lparr>mode := HVSP\<rparr>) = HVSP \<and>
   burn_fuses False 0x62 0xDF 0 ((power_on (\<lambda>k. HIGH) (\<lambda>k. 0) [])\<lparr>mode := HVSP\<rparr>) \<noteq> None \<and>
   clocked LOW LOW LOW
     (emitted ((power_on (\<lambda>k. HIGH) (\<lambda>k. 0) [])\<lparr>mode := HVSP\<rparr>)
        (the (burn_fuses False 0x62 0xDF 0 ((power_on (\<lambda>k. HIGH) (\<lambda>k. 0) [])\<lparr>mode := HVSP\<rparr>)))) =
     SerialFrame HVSP_WRITE_LFUSE_DATA HVSP_WRITE_LFUSE_INSTR1 @
     SerialFrame 0x62 HVSP_WRITE_LFUSE_INSTR2 @
     SerialFrame 0x00 HVSP_WRITE_LFUSE_INSTR3 @
     SerialFrame 0x00 HVSP_WRITE_LFUSE_INSTR4 @
     SerialFrame HVSP_WRITE_HFUSE_DATA HVSP_WRITE_HFUSE_INSTR1 @
     SerialFrame 0xDF HVSP_WRITE_HFUSE_INSTR2 @
     SerialFrame 0x00 HVSP_WRITE_HFUSE_INSTR3 @
     SerialFrame 0x00 HVSP_WRITE_HFUSE_INSTR4"
proof -
  let ?p = "power_on (\<lambda>k. HIGH) (\<lambda>k. 0) []"
  let ?h = "?p\<lparr>mode := HVSP\<rparr>"
  have p: "burn_fuses True 0x62 0xDF 0xF9 ?p \<noteq> None"
    by (rule burn_fuses_ready) (simp add: power_on_def)
  have h: "burn_fuses False 0x62 0xDF 0 ?h \<noteq> None"
    by (rule burn_fuses_ready) (simp add: power_on_def)
  have ok: "pins_ok ?p" "mode ?p \<noteq> HVSP" "mode ?h = HVSP" "BS2 ?p = D 9"
    by (simp_all add: pins_ok_def power_on_def)
  from p obtain p' where p': "burn_fuses True 0x62 0xDF 0xF9 ?p = Some p'"
    by blast
  from h obtain h' where h': "burn_fuses False 0x62 0xDF 0 ?h = Some h'"
    by blast
  show ?thesis
    using burn_order [where s = ?p and s' = p' and burn_efuse = True and lfuse = "0x62"
        and hfuse = "0xDF" and efuse = "0xF9" and ?b1.0 = LOW and ?b2.0 = LOW and port = 0
        and dat = 0]
      burn_order [where s = ?h and s' = h' and burn_efuse = False and lfuse = "0x62"
        and hfuse = "0xDF" and efuse = 0 and sci = LOW and sdi = LOW and sii = LOW]
      ok p' h'
    by simp
qed

text \<open>
  Claim C2 as stated has the high fuse written before the low fuse in every mode. In the
  serial mode the frames that write the low fuse come first: what is clocked is not the
  sequence that writes the high fuse and then the low fuse.
\<close>

theorem burn_order_counterexample:
  "burn_fuses False 0x62 0xDF 0 ((power_on (\<lambda>k. HIGH) (\<lambda>k. 0) [])\<lparr>mode := HVSP\<rparr>) \<noteq> None \<and>
   clocked LOW LOW LOW
     (emitted ((power_on (\<lambda>k. HIGH) (\<lambda>k. 0) [])\<lparr>mode := HVSP\<rparr>)
        (the (burn_fuses False 0x62 0xDF 0 ((power_on (\<lambda>k. HIGH) (\<lambda>k. 0) [])\<lparr>mode := HVSP\<rparr>)))) =
     SerialFrame HVSP_WRITE_LFUSE_DATA HVSP_WRITE_LFUSE_INSTR1 @
     SerialFrame 0x62 HVSP_WRITE_LFUSE_INSTR2 @
     SerialFrame 0x00 HVSP_WRITE_LFUSE_INSTR3 @
     SerialFrame 0x00 HVSP_WRITE_LFUSE_INSTR4 @
     SerialFrame HVSP_WRITE_HFUSE_DATA HVSP_WRITE_HFUSE_INSTR1 @
     SerialFrame 0xDF HVSP_WRITE_HFUSE_INSTR2 @
     SerialFrame 0x00 HVSP_WRITE_HFUSE_INSTR3 @
     SerialFrame 0x00 HVSP_WRITE_HFUSE_INSTR4 \<and>
   clocked LOW LOW LOW
     (emitted ((power_on (\<lambda>k. HIGH) (\<lambda>k. 0) [])\<lparr>mode := HVSP\<rparr>)
        (the (burn_fuses False 0x62 0xDF 0 ((power_on (\<lambda>k. HIGH) (\<lambda>k. 0) [])\<lparr>mode := HVSP\<rparr>)))) \<noteq>
     SerialFrame HVSP_WRITE_HFUSE_DATA HVSP_WRITE_HFUSE_INSTR1 @
     SerialFrame 0xDF HVSP_WRITE_HFUSE_INSTR2 @
     SerialFrame 0x00 HVSP_WRITE_HFUSE_INSTR3 @
     SerialFrame 0x00 HVSP_WRITE_HFUSE_INSTR4 @
     SerialFrame HVSP_WRITE_LFUSE_DATA HVSP_WRITE_LFUSE_INSTR1 @
     SerialFrame 0x62 HVSP_WRITE_LFUSE_INSTR2 @
     SerialFrame 0x00 HVSP_WRITE_LFUSE_INSTR3 @
     SerialFrame 0x00 HVSP_WRITE_LFUSE_INSTR4"
proof -
  let ?h = "(power_on (\<lambda>k. HIGH) (\<lambda>k. 0) [])\<lparr>mode := HVSP\<rparr>"
  have h: "burn_fuses False 0x62 0xDF 0 ?h \<noteq> None"
    by (rule burn_fuses_ready) (simp add: power_on_def)
  then obtain h' where h': "burn_fuses False 0x62 0xDF 0 ?h = Some h'"
    by blast
  have m: "mode ?h = HVSP \<and> burn_fuses False 0x62 0xDF 0 ?h = Some h'"
    using h' by (simp add: power_on_def)
  have differ: "SerialFrame 0x62 HVSP_WRITE_LFUSE_INSTR2 \<noteq> SerialFrame 0xDF HVSP_WRITE_HFUSE_INSTR2"
    by (simp add: SerialFrame_def lvl_def upt_8)
  have len: "length (SerialFrame d i) = 11" for d i
    by (simp add: SerialFrame_def)
  show ?thesis
    using HVSP_burn_order [OF m, of LOW LOW LOW] h h' differ
    by (simp add: len)
qed

end
